theory Spec2Isabelle
  imports Main "HOL-Library.Sublist"
begin

section \<open>JavaScript strings\<close>

text \<open>
  A JavaScript string is a sequence of UTF-16 code units. The model uses \<^typ>\<open>string\<close>,
  whose characters are the code units below 256 (ASCII and Latin-1); every
  function below works unit by unit, as the source does.
\<close>

definition dq :: char where "dq = CHR 0x22"   \<comment> \<open>the double quote\<close>
definition sq :: char where "sq = CHR 0x27"   \<comment> \<open>the single quote\<close>
definition bq :: char where "bq = CHR 0x60"   \<comment> \<open>the backtick\<close>

text \<open>The class \<open>\s\<close> (tab, LF, VT, FF, CR, space, NBSP) and the class \<open>\w\<close>.\<close>

definition wsChars :: "char list" where
  "wsChars = [CHR 0x09, CHR 0x0A, CHR 0x0B, CHR 0x0C, CHR 0x0D, CHR 0x20, CHR 0xA0]"

definition wordChars :: "char list" where
  "wordChars = ''abcdefghijklmnopqrstuvwxyzABCDEFGHIJKLMNOPQRSTUVWXYZ0123456789_''"

definition isSpace :: "char \<Rightarrow> bool" where
  "isSpace c = (c \<in> set wsChars)"

text \<open>\<open>String.prototype.trim\<close>.\<close>

definition trim :: "string \<Rightarrow> string" where
  "trim s = rev (dropWhile isSpace (rev (dropWhile isSpace s)))"

text \<open>
  \<open>String.prototype.split(separator)\<close> with a string separator. \<open>splitOn sep cur rest\<close>
  scans \<open>rest\<close> with \<open>cur\<close> the piece read so far; an empty separator splits into
  single code units, and the empty string then gives no piece at all.
\<close>

function splitOn :: "string \<Rightarrow> string \<Rightarrow> string \<Rightarrow> string list" where
  "splitOn sep cur [] = [cur]"
| "splitOn sep cur (c # cs) =
     (if sep \<noteq> [] \<and> prefix sep (c # cs)
      then cur # splitOn sep [] (drop (length sep) (c # cs))
      else splitOn sep (cur @ [c]) cs)"
  by pat_completeness auto
termination
  by (relation "measure (\<lambda>(sep, cur, rest). length rest)") (auto simp: Suc_le_eq)

definition jsSplit :: "string \<Rightarrow> string \<Rightarrow> string list" where
  "jsSplit sep s = (if sep = [] then map (\<lambda>c. [c]) s else splitOn sep [] s)"

text \<open>
  \<open>code.replace(pattern, replacement)\<close> with a string pattern: the first occurrence
  of the pattern is replaced, and in the replacement text \<open>$$\<close> stands for a dollar,
  \<open>$&\<close> for the matched text, \<open>$`\<close> for the text before the match and \<open>$'\<close> for the
  text after it (a string pattern has no captures, so \<open>$1\<close> and \<open>$<\<close> stay as written).
\<close>

fun getSubstitution :: "string \<Rightarrow> string \<Rightarrow> string \<Rightarrow> string \<Rightarrow> string" where
  "getSubstitution matched left right [] = []"
| "getSubstitution matched left right [c] = [c]"
| "getSubstitution matched left right (c # d # r) =
     (if c = CHR ''$'' \<and> d = CHR ''$'' then CHR ''$'' # getSubstitution matched left right r
      else if c = CHR ''$'' \<and> d = CHR ''&'' then matched @ getSubstitution matched left right r
      else if c = CHR ''$'' \<and> d = bq then left @ getSubstitution matched left right r
      else if c = CHR ''$'' \<and> d = sq then right @ getSubstitution matched left right r
      else c # getSubstitution matched left right (d # r))"

fun replaceFrom :: "string \<Rightarrow> string \<Rightarrow> string \<Rightarrow> string \<Rightarrow> string" where
  "replaceFrom pat rep left [] =
     (if pat = [] then left @ getSubstitution pat left [] rep else left)"
| "replaceFrom pat rep left (c # cs) =
     (if prefix pat (c # cs)
      then left @ getSubstitution pat left (drop (length pat) (c # cs)) rep
                  @ drop (length pat) (c # cs)
      else replaceFrom pat rep (left @ [c]) cs)"

definition jsReplace :: "string \<Rightarrow> string \<Rightarrow> string \<Rightarrow> string" where
  "jsReplace code pat rep = replaceFrom pat rep [] code"

section \<open>Regular expressions\<close>

text \<open>
  The regular expressions of the plugin are kept as syntax trees and run by a
  backtracking matcher. A state is the captures so far, whether the position is
  the start of the input, and the text from the position on. \<open>rmatch r st\<close>
  lists, in the order a backtracking engine tries them, every way \<open>r\<close> can match
  at the position: the head of the list is the match JavaScript reports.
  Quantifiers are greedy, and an iteration that consumes nothing is dropped.
  \<open>Bol\<close> and \<open>Eol\<close> are \<open>^\<close> and \<open>$\<close> (no \<open>m\<close> flag), \<open>Look\<close> is \<open>(?=...)\<close>, \<open>Grp n\<close> the
  \<open>n\<close>-th capture group.
\<close>

datatype rx =
    Lit char
  | OneOf "char list"
  | NoneOf "char list"
  | Seq rx rx
  | Alt rx rx
  | Star rx
  | Grp nat rx
  | Look rx
  | Bol
  | Eol
  | Eps

type_synonym mstate = "(nat \<times> string) list \<times> bool \<times> string"

fun rmatch :: "rx \<Rightarrow> mstate \<Rightarrow> mstate list" where
  "rmatch (Lit c) (caps, b, s) =
     (case s of [] \<Rightarrow> [] | x # xs \<Rightarrow> if x = c then [(caps, False, xs)] else [])"
| "rmatch (OneOf cs) (caps, b, s) =
     (case s of [] \<Rightarrow> [] | x # xs \<Rightarrow> if x \<in> set cs then [(caps, False, xs)] else [])"
| "rmatch (NoneOf cs) (caps, b, s) =
     (case s of [] \<Rightarrow> [] | x # xs \<Rightarrow> if x \<in> set cs then [] else [(caps, False, xs)])"
| "rmatch (Seq a b) st = concat (map (rmatch b) (rmatch a st))"
| "rmatch (Alt a b) st = rmatch a st @ rmatch b st"
| "rmatch (Star a) st =
     concat (map (\<lambda>st'. if length (snd (snd st')) < length (snd (snd st))
                         then rmatch (Star a) st' else [])
                 (rmatch a st)) @ [st]"
| "rmatch (Grp n a) (caps, b, s) =
     map (\<lambda>(caps', b', s'). ((n, take (length s - length s') s) # caps', b', s'))
         (rmatch a (caps, b, s))"
| "rmatch (Look a) st = (if rmatch a st = [] then [] else [st])"
| "rmatch Bol (caps, b, s) = (if b then [(caps, b, s)] else [])"
| "rmatch Eol (caps, b, s) = (if s = [] then [(caps, b, s)] else [])"
| "rmatch Eps st = [st]"

definition Plus :: "rx \<Rightarrow> rx" where
  "Plus a = Seq a (Star a)"

definition Opt :: "rx \<Rightarrow> rx" where
  "Opt a = Alt a Eps"

text \<open>\<open>regex.test(s)\<close>, and \<open>s.match(regex)\<close> being non-null: a match at some position.\<close>

fun rxTestFrom :: "rx \<Rightarrow> bool \<Rightarrow> string \<Rightarrow> bool" where
  "rxTestFrom r b [] = (rmatch r ([], b, []) \<noteq> [])"
| "rxTestFrom r b (c # cs) =
     (if rmatch r ([], b, c # cs) \<noteq> [] then True else rxTestFrom r False cs)"

definition rxTest :: "rx \<Rightarrow> string \<Rightarrow> bool" where
  "rxTest r s = rxTestFrom r True s"

text \<open>
  \<open>s.replace(regex, callback)\<close> with the \<open>g\<close> flag. The callback gets the matched
  text and the captures. After an empty match the engine copies one code unit and
  goes on.
\<close>

function rxReplaceFrom ::
  "rx \<Rightarrow> (string \<Rightarrow> (nat \<times> string) list \<Rightarrow> string) \<Rightarrow> bool \<Rightarrow> string \<Rightarrow> string" where
  "rxReplaceFrom r f b s =
     (case rmatch r ([], b, s) of
        [] \<Rightarrow> (case s of [] \<Rightarrow> [] | c # cs \<Rightarrow> c # rxReplaceFrom r f False cs)
      | (caps, b', s') # _ \<Rightarrow>
          (if length s' < length s
           then f (take (length s - length s') s) caps @ rxReplaceFrom r f False s'
           else f [] caps @ (case s of [] \<Rightarrow> [] | c # cs \<Rightarrow> c # rxReplaceFrom r f False cs)))"
  by pat_completeness auto
termination
  by (relation "measure (\<lambda>(r, f, b, s). length s)") auto

declare rxReplaceFrom.simps [simp del]

definition rxReplace :: "rx \<Rightarrow> (string \<Rightarrow> (nat \<times> string) list \<Rightarrow> string) \<Rightarrow> string \<Rightarrow> string" where
  "rxReplace r f s = rxReplaceFrom r f True s"

text \<open>
  \<open>s.split(regex)\<close> for a regex with \<open>n\<close> capture groups. \<open>rxSplitLoop r n b cur rest\<close>
  is the loop of the language definition: \<open>cur\<close> is the text between the end of the
  last separator and the position tried, \<open>rest\<close> the text from that position on. A
  match that ends where the piece began is skipped; otherwise the piece is
  pushed, then every capture (\<open>None\<close> for a group that took no part), and the
  scan goes on behind the match. The elements are \<open>string option\<close>, \<open>None\<close> being
  \<open>undefined\<close>.
\<close>

function rxSplitLoop :: "rx \<Rightarrow> nat \<Rightarrow> bool \<Rightarrow> string \<Rightarrow> string \<Rightarrow> string option list" where
  "rxSplitLoop r n b cur [] = [Some cur]"
| "rxSplitLoop r n b cur (c # cs) =
     (case rmatch r ([], b, c # cs) of
        [] \<Rightarrow> rxSplitLoop r n False (cur @ [c]) cs
      | (caps, b', s') # _ \<Rightarrow>
          (if length s' < Suc (length cs)
           then Some cur # map (map_of caps) [1..<Suc n] @ rxSplitLoop r n False [] s'
           else if cur = [] then rxSplitLoop r n False [c] cs
           else Some cur # map (map_of caps) [1..<Suc n] @ rxSplitLoop r n b [] (c # cs)))"
  by pat_completeness auto
termination
  by (relation "measure (\<lambda>(r, n, b, cur, rest). 2 * length rest + (if cur = [] then 0 else 1))") auto

definition rxSplit :: "rx \<Rightarrow> nat \<Rightarrow> string \<Rightarrow> string option list" where
  "rxSplit r n s =
     (if s = [] then (if rmatch r ([], True, []) \<noteq> [] then [] else [Some []])
      else rxSplitLoop r n True [] s)"

section \<open>tools/inline/plugin.ts\<close>

text \<open>\<open>quoteValue\<close>: the value in backticks. \<open>interpolateParam\<close>: \<open>${param}\<close>.\<close>

definition quoteValue :: "string \<Rightarrow> string" where
  "quoteValue v = bq # v @ [bq]"

definition interpolateParam :: "string \<Rightarrow> string" where
  "interpolateParam param = ''${'' @ param @ ''}''"

text \<open>
  \<open>trimQuotes\<close>: \<open>value.replace(/(^("|'|`))|("|'|`)$/g, '')\<close>; the replacement text is
  empty.
\<close>

definition isQuote :: "char \<Rightarrow> bool" where
  "isQuote c = (c = dq \<or> c = sq \<or> c = bq)"

definition quoteTrimRegex :: rx where
  "quoteTrimRegex =
     Alt (Grp 1 (Seq Bol (Grp 2 (Alt (Lit dq) (Alt (Lit sq) (Lit bq))))))
         (Seq (Grp 3 (Alt (Lit dq) (Alt (Lit sq) (Lit bq)))) Eol)"

definition trimQuotes :: "string \<Rightarrow> string" where
  "trimQuotes v = rxReplace quoteTrimRegex (\<lambda>substring caps. []) v"

text \<open>
  \<open>getParams\<close>. The regex of the split is
  \<^verbatim>\<open>((?:[^,'"`]*(?:"(?:[^"])*"|'(?:[^'])*'|'(?:[^`])*`|,(?:[^{]*\}))[^,'"`]*)+)|,\<close>
  with one capture group; its third alternative opens with a single quote and
  closes with a backtick, as the source writes it.
\<close>

definition plainChar :: rx where
  "plainChar = NoneOf [CHR '','', sq, dq, bq]"

definition quotedAlt :: rx where
  "quotedAlt =
     Alt (Seq (Lit dq) (Seq (Star (NoneOf [dq])) (Lit dq)))
    (Alt (Seq (Lit sq) (Seq (Star (NoneOf [sq])) (Lit sq)))
    (Alt (Seq (Lit sq) (Seq (Star (NoneOf [bq])) (Lit bq)))
         (Seq (Lit CHR '','') (Seq (Star (NoneOf [CHR ''{''])) (Lit CHR ''}'')))))"

definition paramsRegex :: rx where
  "paramsRegex =
     Alt (Grp 1 (Plus (Seq (Star plainChar) (Seq quotedAlt (Star plainChar)))))
         (Lit CHR '','')"

definition truthy :: "string option \<Rightarrow> bool" where
  "truthy v = (case v of None \<Rightarrow> False | Some s \<Rightarrow> s \<noteq> [])"

text \<open>\<open>x.replace(/\s+/g, ' ')\<close>: every run of white space becomes one space.\<close>

definition collapseWs :: "string \<Rightarrow> string" where
  "collapseWs x = rxReplace (Plus (OneOf wsChars)) (\<lambda>substring caps. '' '') x"

definition getParams :: "string \<Rightarrow> string list" where
  "getParams args =
     map (\<lambda>x. trim (collapseWs x))
         (map the (filter truthy (rxSplit paramsRegex 1 args)))"

text \<open>
  \<open>handleParams\<close>. The brackets are trimmed by \<open>args.replace(/(^({))|(})$/g, '')\<close>
  (\<open>bracketTrimRegex\<close>), and every parameter \<open>name: expr\<close> rewrites the placeholders matched by
  \<^verbatim>\<open>{{\s?([^{}\s]*)\s?}}\<close> whose captured name is \<open>name\<close> (\<open>nameRegex\<close> is the
  part \<^verbatim>\<open>([^{}\s]*)\s?}}\<close> of it, \<open>closeRegex\<close> the part \<^verbatim>\<open>\s?}}\<close>). The declared result
  type is \<open>string | undefined\<close>, hence the option.
\<close>

definition bracketTrimRegex :: rx where
  "bracketTrimRegex =
     Alt (Grp 1 (Seq Bol (Grp 2 (Lit CHR ''{''))))
         (Seq (Grp 3 (Lit CHR ''}'')) Eol)"

definition closeRegex :: rx where
  "closeRegex = Seq (Opt (OneOf wsChars)) (Seq (Lit CHR ''}'') (Lit CHR ''}''))"

definition nameRegex :: rx where
  "nameRegex = Seq (Grp 1 (Star (NoneOf (CHR ''{'' # CHR ''}'' # wsChars)))) closeRegex"

definition placeholderRegex :: rx where
  "placeholderRegex =
     Seq (Lit CHR ''{'') (Seq (Lit CHR ''{'') (Seq (Opt (OneOf wsChars)) nameRegex))"

definition replacePlaceholders :: "string list \<Rightarrow> string \<Rightarrow> string" where
  "replacePlaceholders parts v =
     (case parts of
        [name, expr] \<Rightarrow>
          rxReplace placeholderRegex
            (\<lambda>substring caps. if map_of caps 1 = Some name then interpolateParam expr else substring) v
      | _ \<Rightarrow> v)"

fun substParams :: "string list \<Rightarrow> string \<Rightarrow> string" where
  "substParams [] v = v"
| "substParams (param # params) v =
     substParams params (replacePlaceholders (map trim (jsSplit '':'' param)) v)"

definition handleParams :: "string \<Rightarrow> string \<Rightarrow> string option" where
  "handleParams v args =
     Some (quoteValue
       (substParams
          (getParams (rxReplace bracketTrimRegex (\<lambda>substring caps. []) args)) v))"

subsection \<open>Translation data\<close>

text \<open>
  \<open>Translation\<close> is \<open>{ [key: string]: any }\<close>, filled by \<open>JSON.parse\<close>: the values are
  JSON values (numbers kept as integers). \<open>ownProp v k\<close> is \<open>v[k]\<close> for an own
  property \<open>k\<close> of \<open>v\<close>: a key of an object, an index or the length of a string or
  an array.

  Every other property comes from the built-in prototypes of the engine that
  runs the plugin, which are no part of the repository: they are the parameter
  \<open>h\<close> of \<open>getProp\<close>. \<open>h v k\<close> is what \<open>v[k]\<close> gives when \<open>k\<close> is no own property of
  \<open>v\<close>: \<open>Inr None\<close> for \<open>undefined\<close>, a value (the function \<open>constructor\<close>, say),
  or an exception thrown by an accessor (\<open>caller\<close> of a built-in function). \<open>JHost n\<close>
  is an object of the host, a function or a prototype; all its properties are
  the host's.
\<close>

datatype error = TypeError

datatype jsval =
    JNull
  | JBool bool
  | JNum int
  | JStr string
  | JArr "jsval list"
  | JObj "(string \<times> jsval) list"
  | JHost nat

type_synonym host = "jsval \<Rightarrow> string \<Rightarrow> error + jsval option"

type_synonym Translation = "(string \<times> jsval) list"

definition isDigit :: "char \<Rightarrow> bool" where
  "isDigit c = (c \<in> set ''0123456789'')"

definition parseIndex :: "string \<Rightarrow> nat option" where
  "parseIndex k =
     (if k \<noteq> [] \<and> list_all isDigit k \<and> (k = ''0'' \<or> hd k \<noteq> CHR ''0'')
      then Some (foldl (\<lambda>n c. 10 * n + (of_char c - 48)) 0 k) else None)"

fun ownProp :: "jsval \<Rightarrow> string \<Rightarrow> jsval option" where
  "ownProp (JObj kvs) k = map_of kvs k"
| "ownProp (JStr s) k =
     (if k = ''length'' then Some (JNum (int (length s)))
      else case parseIndex k of
             None \<Rightarrow> None
           | Some i \<Rightarrow> if i < length s then Some (JStr [s ! i]) else None)"
| "ownProp (JArr xs) k =
     (if k = ''length'' then Some (JNum (int (length xs)))
      else case parseIndex k of
             None \<Rightarrow> None
           | Some i \<Rightarrow> if i < length xs then Some (xs ! i) else None)"
| "ownProp v k = None"

definition getProp :: "host \<Rightarrow> jsval \<Rightarrow> string \<Rightarrow> error + jsval option" where
  "getProp h v k = (case ownProp v k of Some w \<Rightarrow> Inr (Some w) | None \<Rightarrow> h v k)"

fun jsTruthy :: "jsval \<Rightarrow> bool" where
  "jsTruthy JNull = False"
| "jsTruthy (JBool b) = b"
| "jsTruthy (JNum n) = (n \<noteq> 0)"
| "jsTruthy (JStr s) = (s \<noteq> [])"
| "jsTruthy (JArr xs) = True"
| "jsTruthy (JObj kvs) = True"
| "jsTruthy (JHost n) = True"

text \<open>
  The reducer of \<open>getValue\<close>: \<open>(acc && acc[cur] != null) ? acc[cur] : null\<close>, with
  \<open>None\<close> for \<open>null\<close> and \<open>undefined\<close>; \<open>walk\<close> is the \<open>reduce\<close> over the segments, which
  an exception leaves at once.
\<close>

definition walkStep :: "host \<Rightarrow> jsval option \<Rightarrow> string \<Rightarrow> error + jsval option" where
  "walkStep h acc cur =
     (case acc of
        None \<Rightarrow> Inr None
      | Some v \<Rightarrow>
          if jsTruthy v
          then (case getProp h v cur of
                  Inl e \<Rightarrow> Inl e
                | Inr None \<Rightarrow> Inr None
                | Inr (Some JNull) \<Rightarrow> Inr None
                | Inr (Some w) \<Rightarrow> Inr (Some w))
          else Inr None)"

fun walk :: "host \<Rightarrow> jsval option \<Rightarrow> string list \<Rightarrow> error + jsval option" where
  "walk h acc [] = Inr acc"
| "walk h acc (cur # segs) =
     (case walkStep h acc cur of Inl e \<Rightarrow> Inl e | Inr acc' \<Rightarrow> walk h acc' segs)"

definition getValue ::
  "host \<Rightarrow> string \<Rightarrow> jsval option \<Rightarrow> string option \<Rightarrow> string \<Rightarrow> error + string option" where
  "getValue h key data args keySeparator =
     (case walk h data (jsSplit keySeparator key) of
        Inl e \<Rightarrow> Inl e
      | Inr (Some (JStr v)) \<Rightarrow>
          Inr (if truthy args then handleParams v (the args) else Some (quoteValue v))
      | Inr _ \<Rightarrow> Inr None)"

text \<open>\<open>getKey\<close>: \<open>trimQuotes(param).split(keyValueSeparator)[0]\<close>.\<close>

definition at :: "'a list \<Rightarrow> nat \<Rightarrow> 'a option" where
  "at xs i = (if i < length xs then Some (xs ! i) else None)"

definition getKey :: "string \<Rightarrow> string \<Rightarrow> string option" where
  "getKey param keyValueSeparator = at (jsSplit keyValueSeparator (trimQuotes param)) 0"

definition multilingual :: "string option \<Rightarrow> string list \<Rightarrow> string option" where
  "multilingual param langs =
     (if \<not> truthy param then None else find (\<lambda>x. x = trimQuotes (the param)) langs)"

text \<open>
  \<open>buildLine\<close>. \<open>values\<close> is the \<open>Map\<close>; a template literal prints a missing entry as
  \<open>undefined\<close>. The constant \<open>globalLang\<close> of the module \<open>./constants\<close> is the
  parameter \<open>g\<close>.
\<close>

definition templ :: "string option \<Rightarrow> string" where
  "templ v = (case v of None \<Rightarrow> ''undefined'' | Some s \<Rightarrow> s)"

fun buildTerms :: "string \<Rightarrow> (string \<rightharpoonup> string) \<Rightarrow> string list \<Rightarrow> string \<Rightarrow> string" where
  "buildTerms g values [] translatedLine = translatedLine"
| "buildTerms g values (lang # langs) translatedLine =
     buildTerms g values langs
       (translatedLine @ g @ '' === '' @ quoteValue lang @ '' && '' @ templ (values lang) @ '' || '')"

definition buildLine :: "string \<Rightarrow> (string \<rightharpoonup> string) \<Rightarrow> string list \<Rightarrow> string \<Rightarrow> string" where
  "buildLine g values langs dflt =
     buildTerms g values (filter (\<lambda>x. x \<noteq> dflt) langs) [] @ templ (values dflt)"

subsection \<open>The transform\<close>

record options =
  supportedLangs :: "string list"
  defaultLang :: string
  basePath :: string
  assetsPath :: string
  keySeparator :: string
  keyValueSeparator :: string

text \<open>
  The module \<open>./constants\<close> is not among the sources. Its values are parameters:
  \<open>translateFnMatch c code\<close> is \<open>code.match(translateFnMatch)\<close>,
  \<open>translateFnSignatureMatch c fn\<close> is \<open>fn.match(translateFnSignatureMatch)?.[0]\<close>.
\<close>

record constants =
  translateFnMatch :: "string \<Rightarrow> string list option"
  translateFnSignatureMatch :: "string \<Rightarrow> string option"
  globalLang :: string

definition paramNamesRegex :: rx where
  "paramNamesRegex =
     Grp 1 (Seq (Plus (OneOf wordChars))
                (Look (Alt (Lit CHR '':'') (Seq (Plus (OneOf wsChars)) (Lit CHR '':'')))))"

text \<open>\<open>Skip dynamic params\<close>: a second argument in which no property name is found.\<close>

definition dynamicParams :: "string list \<Rightarrow> bool" where
  "dynamicParams params =
     (truthy (at params 1) \<and> \<not> rxTest paramNamesRegex (the (at params 1)))"

text \<open>The locales of one call and their default (\<open>Check multilingual\<close>).\<close>

definition activeLangs :: "options \<Rightarrow> string option \<Rightarrow> string list \<times> string" where
  "activeLangs opts param =
     (let optionalLang = multilingual param (supportedLangs opts)
      in if \<not> truthy optionalLang then (supportedLangs opts, defaultLang opts)
         else ([the optionalLang], the optionalLang))"

text \<open>
  The loop over the other locales. The module \<open>../logger\<close> is not among the sources:
  the log is the list of the lines passed to \<open>log\<close>, in order.
\<close>

fun resolveLangs ::
  "host \<Rightarrow> string \<Rightarrow> Translation \<Rightarrow> string option \<Rightarrow> string \<Rightarrow> string list \<Rightarrow>
   (string \<rightharpoonup> string) \<times> string list \<Rightarrow> error + (string \<rightharpoonup> string) \<times> string list" where
  "resolveLangs h key tr args ksep [] (values, logs) = Inr (values, logs)"
| "resolveLangs h key tr args ksep (lang # langs) (values, logs) =
     (case getValue h key (map_of tr lang) args ksep of
        Inl e \<Rightarrow> Inl e
      | Inr v \<Rightarrow>
          if \<not> truthy v
          then resolveLangs h key tr args ksep langs
                 (values, logs @ [lang @ '' - missing value for key: '' @ key])
          else resolveLangs h key tr args ksep langs (values(lang \<mapsto> the v), logs))"

text \<open>
  The body of the loop of \<open>inline\<close> for one match with its argument text, on the
  code and the log. \<open>params[0]\<close> of an argument text of commas only is
  \<open>undefined\<close>, and so is the key when an empty text is split at an empty
  separator: \<open>trimQuotes\<close> and \<open>getValue\<close> then throw.
\<close>

definition inlineArgs ::
  "host \<Rightarrow> string \<Rightarrow> options \<Rightarrow> Translation \<Rightarrow> string \<Rightarrow> string \<Rightarrow> string \<times> string list \<Rightarrow>
   error + string \<times> string list" where
  "inlineArgs h g opts tr originalFn args st =
     (let params = getParams args; code = fst st; logs = snd st
      in if dynamicParams params then Inr (code, logs)
         else
           let langs = fst (activeLangs opts (at params 3));
               dflt = snd (activeLangs opts (at params 3))
           in case at params 0 of
                None \<Rightarrow> Inl TypeError
              | Some p0 \<Rightarrow>
                 (case getKey p0 (keyValueSeparator opts) of
                    None \<Rightarrow> Inl TypeError
                  | Some key \<Rightarrow>
                     (case getValue h key (map_of tr dflt) (at params 1) (keySeparator opts) of
                        Inl e \<Rightarrow> Inl e
                      | Inr defaultValue \<Rightarrow>
                          if \<not> truthy defaultValue
                          then Inr (code, logs @ [dflt @ '' - missing value for key: '' @ key @ '' - Skip''])
                          else
                            (case resolveLangs h key tr (at params 1) (keySeparator opts)
                                    (filter (\<lambda>x. x \<noteq> dflt) langs)
                                    (Map.empty(dflt \<mapsto> the defaultValue), logs) of
                               Inl e \<Rightarrow> Inl e
                             | Inr r \<Rightarrow>
                                 Inr (jsReplace code originalFn (buildLine g (fst r) langs dflt),
                                      snd r)))))"

definition inlineFn ::
  "host \<Rightarrow> constants \<Rightarrow> options \<Rightarrow> Translation \<Rightarrow> string \<times> string list \<Rightarrow> string \<Rightarrow>
   error + string \<times> string list" where
  "inlineFn h c opts tr st originalFn =
     (case translateFnSignatureMatch c originalFn of
        None \<Rightarrow> Inr st
      | Some args \<Rightarrow>
          if args = [] then Inr st else inlineArgs h (globalLang c) opts tr originalFn args st)"

fun inlineLoop ::
  "host \<Rightarrow> constants \<Rightarrow> options \<Rightarrow> Translation \<Rightarrow> string list \<Rightarrow> string \<times> string list \<Rightarrow>
   error + string \<times> string list" where
  "inlineLoop h c opts tr [] st = Inr st"
| "inlineLoop h c opts tr (originalFn # matches) st =
     (case inlineFn h c opts tr st originalFn of
        Inl e \<Rightarrow> Inl e
      | Inr st' \<Rightarrow> inlineLoop h c opts tr matches st')"

text \<open>
  \<open>inline\<close>: \<open>None\<close> is the \<open>null\<close> returned when nothing matches; \<open>returned\<close> is the
  \<open>return code\<close> behind the loop.
\<close>

definition returned :: "error + string \<times> string list \<Rightarrow> error + string option \<times> string list" where
  "returned r = (case r of Inl e \<Rightarrow> Inl e | Inr st \<Rightarrow> Inr (Some (fst st), snd st))"

definition inline ::
  "host \<Rightarrow> constants \<Rightarrow> options \<Rightarrow> Translation \<Rightarrow> string \<Rightarrow> string list \<Rightarrow>
   error + string option \<times> string list" where
  "inline h c opts tr code logs =
     (case translateFnMatch c code of
        None \<Rightarrow> Inr (None, logs)
      | Some matches \<Rightarrow> returned (inlineLoop h c opts tr matches (code, logs)))"

section \<open>tools/extract/index.ts\<close>

text \<open>
  The \<open>Deep set\<close> loop of \<open>qwikSpeakExtract\<close>. \<open>[key, defaultValue] = key.split(sep)\<close>
  takes the first two pieces of the split. \<open>deepSet\<close> of \<open>../core/merge\<close> is not
  among the sources and is a parameter; \<open>deepSetArgs\<close> is what it is called with.
\<close>

definition keyAndDefault :: "string \<Rightarrow> string \<Rightarrow> string option \<times> string option" where
  "keyAndDefault sep key = (at (jsSplit sep key) 0, at (jsSplit sep key) 1)"

definition deepSetArgs :: "options \<Rightarrow> string \<Rightarrow> error + string list \<times> string" where
  "deepSetArgs opts key0 =
     (case fst (keyAndDefault (keyValueSeparator opts) key0) of
        None \<Rightarrow> Inl TypeError
      | Some key \<Rightarrow>
          Inr (jsSplit (keySeparator opts) key,
               if truthy (snd (keyAndDefault (keyValueSeparator opts) key0))
               then the (snd (keyAndDefault (keyValueSeparator opts) key0)) else []))"

fun deepSetLangs ::
  "('t \<Rightarrow> string list \<Rightarrow> string \<Rightarrow> 't) \<Rightarrow> string list \<times> string \<Rightarrow> string list \<Rightarrow>
   (string \<Rightarrow> 't) \<Rightarrow> (string \<Rightarrow> 't)" where
  "deepSetLangs deepSet a [] tr = tr"
| "deepSetLangs deepSet a (lang # langs) tr =
     deepSetLangs deepSet a langs (tr(lang := deepSet (tr lang) (fst a) (snd a)))"

fun deepSetKeys ::
  "('t \<Rightarrow> string list \<Rightarrow> string \<Rightarrow> 't) \<Rightarrow> options \<Rightarrow> string list \<Rightarrow>
   (string \<Rightarrow> 't) \<Rightarrow> error + (string \<Rightarrow> 't)" where
  "deepSetKeys deepSet opts [] tr = Inr tr"
| "deepSetKeys deepSet opts (key0 # keys) tr =
     (case deepSetArgs opts key0 of
        Inl e \<Rightarrow> Inl e
      | Inr a \<Rightarrow> deepSetKeys deepSet opts keys (deepSetLangs deepSet a (supportedLangs opts) tr))"

section \<open>Notions of the specification\<close>

text \<open>
  The fallback chain as the specification words it: a term only for the locales
  whose value resolved, each locale between single quotes in one reading, as the
  builder quotes it in the other. Both are compared with \<open>buildLine\<close> below.
\<close>

definition chainOfResolved :: "string \<Rightarrow> (string \<rightharpoonup> string) \<Rightarrow> string list \<Rightarrow> string \<Rightarrow> string" where
  "chainOfResolved g values langs dflt =
     concat (map (\<lambda>l. g @ '' === '' @ quoteValue l @ '' && '' @ the (values l) @ '' || '')
                 (filter (\<lambda>l. l \<noteq> dflt \<and> values l \<noteq> None) langs))
     @ templ (values dflt)"

definition chainSingleQuoted :: "string \<Rightarrow> (string \<rightharpoonup> string) \<Rightarrow> string list \<Rightarrow> string \<Rightarrow> string" where
  "chainSingleQuoted g values langs dflt =
     concat (map (\<lambda>l. g @ '' === '' @ [sq] @ l @ [sq] @ '' && '' @ templ (values l) @ '' || '')
                 (filter (\<lambda>l. l \<noteq> dflt) langs))
     @ templ (values dflt)"

text \<open>
  The translation tree of the specification: a dotted key is walked level by
  level through the nodes that are mappings, by their keys, and resolves when it
  ends on a leaf string. \<open>treeLookup t segs\<close> is the node the segments lead to.
\<close>

fun treeLookup :: "jsval option \<Rightarrow> string list \<Rightarrow> jsval option" where
  "treeLookup t [] = t"
| "treeLookup t (k # ks) =
     (case t of Some (JObj kvs) \<Rightarrow> treeLookup (map_of kvs k) ks | _ \<Rightarrow> None)"

text \<open>
  \<open>misses h t segs\<close>: the key has no value in the tree, and the walk says so
  without leaving the mappings: the tree is absent, or the segments stop at a
  key that a mapping does not have and that names no inherited member either, or
  at a null, or they end on a value that is no string. A key that goes on below a
  value that is no mapping is not covered.
\<close>

fun misses :: "host \<Rightarrow> jsval option \<Rightarrow> string list \<Rightarrow> bool" where
  "misses h None segs = True"
| "misses h (Some v) [] = (case v of JStr s \<Rightarrow> False | _ \<Rightarrow> True)"
| "misses h (Some v) (k # ks) =
     (case v of
        JObj kvs \<Rightarrow>
          (case map_of kvs k of
             Some w \<Rightarrow> misses h (Some w) ks
           | None \<Rightarrow> h (JObj kvs) k = Inr None)
      | JNull \<Rightarrow> True
      | _ \<Rightarrow> False)"

text \<open>
  Parameter substitution as the specification words it: every placeholder
  \<open>{{ name }}\<close> of the value, with at most one white space on either side of the
  name, is replaced by the interpolation \<open>${expr}\<close> of the parameter of that
  name; every other placeholder stays as it is. \<open>placeholderAt s\<close> reads one
  placeholder at the start of \<open>s\<close> and gives its name and the text behind it.
\<close>

definition nameChar :: "char \<Rightarrow> bool" where
  "nameChar c = (c \<noteq> CHR ''{'' \<and> c \<noteq> CHR ''}'' \<and> \<not> isSpace c)"

definition skipSpace :: "string \<Rightarrow> string" where
  "skipSpace s = (case s of [] \<Rightarrow> [] | c # cs \<Rightarrow> if isSpace c then cs else c # cs)"

definition closing :: "string \<Rightarrow> string option" where
  "closing s =
     (case s of
        e # f # rest \<Rightarrow> if e = CHR ''}'' \<and> f = CHR ''}'' then Some rest else None
      | _ \<Rightarrow> None)"

definition placeholderAt :: "string \<Rightarrow> (string \<times> string) option" where
  "placeholderAt s =
     (case s of
        c # d # t \<Rightarrow>
          if c = CHR ''{'' \<and> d = CHR ''{''
          then (case closing (skipSpace (dropWhile nameChar (skipSpace t))) of
                  Some rest \<Rightarrow> Some (takeWhile nameChar (skipSpace t), rest)
                | None \<Rightarrow> None)
          else None
      | _ \<Rightarrow> None)"

function substitute :: "string \<Rightarrow> string \<Rightarrow> string \<Rightarrow> string" where
  "substitute name expr s =
     (case placeholderAt s of
        Some (key, rest) \<Rightarrow>
          (if key = name then ''${'' @ expr @ ''}'' else take (length s - length rest) s)
          @ substitute name expr rest
      | None \<Rightarrow> (case s of [] \<Rightarrow> [] | c # cs \<Rightarrow> c # substitute name expr cs))"
  by pat_completeness auto
termination
proof (relation "measure (\<lambda>(name, expr, s). length s)")
  show "wf (measure (\<lambda>(name, expr, s). length s))" by simp
next
  fix name expr s :: string and x2 :: "string \<times> string" and key rest :: string
  assume "placeholderAt s = Some x2" "(key, rest) = x2"
  then have p: "placeholderAt s = Some (key, rest)" by simp
  then obtain c d t where s: "s = c # d # t"
    by (auto simp: placeholderAt_def split: list.splits)
  from p s have cl: "closing (skipSpace (dropWhile nameChar (skipSpace t))) = Some rest"
    by (auto simp: placeholderAt_def split: if_splits option.splits)
  have a: "length (skipSpace u) \<le> length u" for u
    by (cases u) (simp_all add: skipSpace_def)
  have b: "closing u = Some rest \<Longrightarrow> length rest < length u" for u
    by (auto simp: closing_def split: list.splits if_splits)
  have "length rest < length (skipSpace (dropWhile nameChar (skipSpace t)))"
    using cl by (rule b)
  also have "\<dots> \<le> length (dropWhile nameChar (skipSpace t))" by (rule a)
  also have "\<dots> \<le> length (skipSpace t)" by (rule length_dropWhile_le)
  also have "\<dots> \<le> length t" by (rule a)
  finally have "length rest < length s" using s by simp
  then show "((name, expr, rest), (name, expr, s)) \<in> measure (\<lambda>(name, expr, s). length s)"
    by simp
next
  fix name expr s :: string and c :: char and cs :: string
  assume "s = c # cs"
  then show "((name, expr, cs), (name, expr, s)) \<in> measure (\<lambda>(name, expr, s). length s)"
    by simp
qed

declare substitute.simps [simp del]

text \<open>
  The parameters are the arguments of the object literal without its outer
  braces; a parameter is \<open>name: expr\<close>, with one colon.
\<close>

definition unbrace :: "string \<Rightarrow> string" where
  "unbrace a =
     (let a1 = (case a of [] \<Rightarrow> [] | c # cs \<Rightarrow> if c = CHR ''{'' then cs else c # cs)
      in if a1 \<noteq> [] \<and> last a1 = CHR ''}'' then butlast a1 else a1)"

definition withParam :: "string \<Rightarrow> string \<Rightarrow> string" where
  "withParam param v =
     (case map trim (jsSplit '':'' param) of
        [name, expr] \<Rightarrow> substitute name expr v
      | _ \<Rightarrow> v)"

definition substituted :: "string list \<Rightarrow> string \<Rightarrow> string" where
  "substituted params v = foldl (\<lambda>v param. withParam param v) v params"

section \<open>Sample data\<close>

text \<open>
  The configuration of the sample application (locales \<open>it-IT\<close> and \<open>en-US\<close>, default
  \<open>en-US\<close>) and a small dataset. \<open>scanned ms\<close> stands in for the two expressions of
  \<open>./constants\<close> on a chunk whose calls are \<open>ms\<close>: it reports these calls and takes
  the text between the outer parentheses as the argument text. \<open>sampleHost\<close> is a
  part of the built-in prototypes: an object inherits \<open>constructor\<close>, the function
  \<open>Object\<close> (\<open>JHost 0\<close>), whose \<open>name\<close> is a string and whose \<open>caller\<close> throws.
\<close>

definition sampleOptions :: options where
  "sampleOptions =
     \<lparr>supportedLangs = [''it-IT'', ''en-US''], defaultLang = ''en-US'', basePath = ''./'',
      assetsPath = ''public/i18n'', keySeparator = ''.'', keyValueSeparator = ''@@''\<rparr>"

definition sampleTranslation :: Translation where
  "sampleTranslation =
     [(''en-US'', JObj [(''app'', JObj [(''title'', JStr ''Hello''), (''subtitle'', JStr []),
                                        (''only'', JStr ''English''),
                                        (''greet'', JStr ''Hi {{ name }}'')])]),
      (''it-IT'', JObj [(''app'', JObj [(''title'', JStr ''Ciao'')])])]"

definition sampleHost :: host where
  "sampleHost v k =
     (case v of
        JObj kvs \<Rightarrow> if k = ''constructor'' then Inr (Some (JHost 0)) else Inr None
      | JHost n \<Rightarrow>
          if n = 0 \<and> k = ''name'' then Inr (Some (JStr ''Object''))
          else if n = 0 \<and> k = ''caller'' then Inl TypeError
          else Inr None
      | _ \<Rightarrow> Inr None)"

definition call :: "string \<Rightarrow> string" where
  "call args = ''$translate('' @ args @ '')''"

definition lit :: "string \<Rightarrow> string" where
  "lit s = sq # s @ [sq]"

definition scanned :: "string list \<Rightarrow> constants" where
  "scanned ms =
     \<lparr>translateFnMatch = (\<lambda>code. Some ms),
      translateFnSignatureMatch = (\<lambda>fn. Some (butlast (drop 11 fn))),
      globalLang = ''$lang''\<rparr>"



section \<open>Lemmas\<close>

subsection \<open>The loop and the lookup\<close>

lemma truthy_Some [simp]: "truthy (Some s) = (s \<noteq> [])"
  by (simp add: truthy_def)

lemma truthy_None [simp]: "\<not> truthy None"
  by (simp add: truthy_def)

lemma quoteValue_nonempty [simp]: "quoteValue v \<noteq> []"
  by (simp add: quoteValue_def)

lemma getValue_quoted:
  "getValue h key data args ksep = Inr (Some v) \<Longrightarrow> \<exists>u. v = quoteValue u"
  by (auto simp: getValue_def handleParams_def split: sum.splits option.splits jsval.splits if_splits)

lemma buildTerms_closed:
  "buildTerms g values ls acc =
     acc @ concat (map (\<lambda>l. g @ '' === '' @ quoteValue l @ '' && '' @ templ (values l) @ '' || '') ls)"
  by (induction ls arbitrary: acc) simp_all

lemma resolveLangs_closed:
  assumes "\<forall>l \<in> set ls. getValue h key (map_of tr l) args ksep = Inr (vals l)"
  shows "resolveLangs h key tr args ksep ls (values, logs) =
     Inr ((\<lambda>l. if l \<in> set ls \<and> vals l \<noteq> None then vals l else values l),
          logs @ map (\<lambda>l. l @ '' - missing value for key: '' @ key)
                     (filter (\<lambda>l. vals l = None) ls))"
  using assms
proof (induction ls arbitrary: "values" logs)
  case Nil
  then show ?case by simp
next
  case (Cons l ls)
  then have gl: "getValue h key (map_of tr l) args ksep = Inr (vals l)"
    and rest: "\<forall>l \<in> set ls. getValue h key (map_of tr l) args ksep = Inr (vals l)"
    by simp_all
  note IH = Cons.IH[OF rest]
  show ?case
  proof (cases "vals l")
    case None
    with gl show ?thesis by (auto simp: IH fun_eq_iff)
  next
    case (Some v)
    with gl have "v \<noteq> []" by (auto dest!: getValue_quoted)
    with Some gl show ?thesis by (auto simp: IH fun_eq_iff)
  qed
qed

lemma resolveLangs_throws:
  assumes "\<forall>l \<in> set ls. \<exists>v. getValue h key (map_of tr l) args ksep = Inr v"
    and "getValue h key (map_of tr l) args ksep = Inl e"
  shows "resolveLangs h key tr args ksep (ls @ l # ls') (values, logs) = Inl e"
  using assms(1)
proof (induction ls arbitrary: "values" logs)
  case Nil
  then show ?case by (simp add: assms(2))
next
  case (Cons x ls)
  then obtain v where "getValue h key (map_of tr x) args ksep = Inr v" by auto
  with Cons show ?case by simp
qed


lemma walk_None: "walk h None segs = Inr None"
  by (induction segs) (simp_all add: walkStep_def)



lemma treeLookup_None: "treeLookup None segs = None"
  by (cases segs) simp_all

lemma treeLookup_walk:
  "treeLookup t segs = Some (JStr s) \<Longrightarrow> walk h t segs = Inr (Some (JStr s))"
proof (induction segs arbitrary: t)
  case Nil
  then show ?case by simp
next
  case (Cons k ks)
  from Cons.prems obtain kvs where t: "t = Some (JObj kvs)"
    and l: "treeLookup (map_of kvs k) ks = Some (JStr s)"
    by (auto split: option.splits jsval.splits)
  from l obtain w where w: "map_of kvs k = Some w"
    by (cases "map_of kvs k") (simp_all add: treeLookup_None)
  have "w \<noteq> JNull"
  proof
    assume "w = JNull"
    with l w show False by (cases ks) simp_all
  qed
  then have "walkStep h t k = Inr (Some w)"
    using t w by (cases w) (simp_all add: walkStep_def getProp_def)
  moreover have "walk h (Some w) ks = Inr (Some (JStr s))"
    using Cons.IH l w by simp
  ultimately show ?case by simp
qed

subsection \<open>The regular expressions\<close>

lemma prefix_short: "prefix xs (ys @ zs) \<Longrightarrow> length xs \<le> length ys \<Longrightarrow> prefix xs ys"
  by (metis prefix_length_prefix prefixI)

text \<open>The regex of the brackets against \<open>unbrace\<close>.\<close>

lemma bracket_end: "rxReplaceFrom bracketTrimRegex (\<lambda>substring caps. []) False [] = []"
  by (subst rxReplaceFrom.simps) (simp add: bracketTrimRegex_def)

lemma bracket_match_last:
  "rmatch bracketTrimRegex ([], False, [c]) =
     (if c = CHR ''}'' then [([(3, [c])], False, [])] else [])"
  by (auto simp: bracketTrimRegex_def)

lemma bracket_match_inner: "rmatch bracketTrimRegex ([], False, c # d # r) = []"
  by (simp add: bracketTrimRegex_def)

lemma bracket_match_first:
  "rmatch bracketTrimRegex ([], True, c # d # r) =
     (if c = CHR ''{'' then [([(1, [c]), (2, [c])], False, d # r)] else [])"
  by (auto simp: bracketTrimRegex_def)

lemma bracket_match_only:
  "rmatch bracketTrimRegex ([], True, [c]) =
     (if c = CHR ''{'' then [([(1, [c]), (2, [c])], False, [])]
      else if c = CHR ''}'' then [([(3, [c])], False, [])] else [])"
  by (auto simp: bracketTrimRegex_def)

lemma bracket_rest:
  "rxReplaceFrom bracketTrimRegex (\<lambda>substring caps. []) False t =
     (if t \<noteq> [] \<and> last t = CHR ''}'' then butlast t else t)"
proof (induction t)
  case Nil
  show ?case by (simp add: bracket_end)
next
  case (Cons c t)
  show ?case
  proof (cases t)
    case Nil
    have "rxReplaceFrom bracketTrimRegex (\<lambda>substring caps. []) False [c] =
        (if c = CHR ''}'' then [] else [c])"
      by (subst rxReplaceFrom.simps) (simp add: bracket_match_last bracket_end)
    with Nil show ?thesis by simp
  next
    case (Cons d r)
    have "rxReplaceFrom bracketTrimRegex (\<lambda>substring caps. []) False (c # d # r) =
        c # rxReplaceFrom bracketTrimRegex (\<lambda>substring caps. []) False (d # r)"
      by (subst rxReplaceFrom.simps) (simp add: bracket_match_inner)
    with Cons.IH Cons show ?thesis by simp
  qed
qed

lemma bracket_unbrace: "rxReplace bracketTrimRegex (\<lambda>substring caps. []) a = unbrace a"
proof (cases a)
  case Nil
  have "rmatch bracketTrimRegex ([], True, []) = []" by (simp add: bracketTrimRegex_def)
  then have "rxReplaceFrom bracketTrimRegex (\<lambda>substring caps. []) True [] = []"
    by (subst rxReplaceFrom.simps) simp
  with Nil show ?thesis by (simp add: rxReplace_def unbrace_def)
next
  case (Cons c t)
  show ?thesis
  proof (cases t)
    case Nil
    have "rxReplaceFrom bracketTrimRegex (\<lambda>substring caps. []) True [c] =
        (if c = CHR ''{'' \<or> c = CHR ''}'' then [] else [c])"
      by (subst rxReplaceFrom.simps) (simp add: bracket_match_only bracket_end)
    with Nil Cons show ?thesis by (auto simp: rxReplace_def unbrace_def)
  next
    case (Cons d r)
    have "rxReplaceFrom bracketTrimRegex (\<lambda>substring caps. []) True (c # d # r) =
        (if c = CHR ''{'' then rxReplaceFrom bracketTrimRegex (\<lambda>substring caps. []) False (d # r)
         else c # rxReplaceFrom bracketTrimRegex (\<lambda>substring caps. []) False (d # r))"
      by (subst rxReplaceFrom.simps) (simp add: bracket_match_first)
    with Cons \<open>a = c # t\<close> show ?thesis
      by (simp add: rxReplace_def unbrace_def bracket_rest)
  qed
qed

text \<open>The regex of the placeholders against \<open>placeholderAt\<close> and \<open>substitute\<close>.\<close>

lemma nameChar_iff: "nameChar c = (c \<notin> set (CHR ''{'' # CHR ''}'' # wsChars))"
  by (auto simp: nameChar_def isSpace_def)

lemma star_run:
  assumes "\<And>caps b c r. c \<notin> set X \<Longrightarrow> F (caps, b, c # r) = []"
  shows "concat (map F (rmatch (Star (NoneOf X)) (caps, b, u))) =
     F (caps, (if takeWhile (\<lambda>c. c \<notin> set X) u = [] then b else False),
        dropWhile (\<lambda>c. c \<notin> set X) u)"
proof (induction u arbitrary: b)
  case Nil
  show ?case by simp
next
  case (Cons c u)
  show ?case
  proof (cases "c \<in> set X")
    case True
    then show ?thesis by simp
  next
    case False
    then have "rmatch (Star (NoneOf X)) (caps, b, c # u) =
        rmatch (Star (NoneOf X)) (caps, False, u) @ [(caps, b, c # u)]"
      by simp
    then have "concat (map F (rmatch (Star (NoneOf X)) (caps, b, c # u))) =
        concat (map F (rmatch (Star (NoneOf X)) (caps, False, u))) @ F (caps, b, c # u)"
      by simp
    also have "\<dots> = F (caps, False, dropWhile (\<lambda>c. c \<notin> set X) u)"
      using Cons.IH[of False] assms[OF False] by simp
    finally show ?thesis using False by simp
  qed
qed

lemma close_match:
  "rmatch closeRegex (caps, b, v) =
     (case closing (skipSpace v) of Some rest \<Rightarrow> [(caps, False, rest)] | None \<Rightarrow> [])"
proof (cases v)
  case Nil
  then show ?thesis by (simp add: closeRegex_def Opt_def closing_def skipSpace_def)
next
  case (Cons w v')
  show ?thesis
  proof (cases "isSpace w")
    case True
    then have "w \<noteq> CHR ''}''" by (auto simp: isSpace_def wsChars_def)
    with True Cons show ?thesis
      by (auto simp: closeRegex_def Opt_def closing_def skipSpace_def isSpace_def
          split: list.splits)
  next
    case False
    with Cons show ?thesis
      by (auto simp: closeRegex_def Opt_def closing_def skipSpace_def isSpace_def
          split: list.splits)
  qed
qed

lemma close_nameChar: "nameChar c \<Longrightarrow> rmatch closeRegex (caps, b, c # r) = []"
  by (simp add: close_match closing_def skipSpace_def nameChar_def split: list.splits)

lemma take_run: "take (length u - length (dropWhile P u)) u = takeWhile P u"
proof -
  have "length u - length (dropWhile P u) = length (takeWhile P u)"
    by (metis add_diff_cancel_right' length_append takeWhile_dropWhile_id)
  then show ?thesis by (simp add: takeWhile_eq_take[symmetric])
qed

lemma name_and_close:
  "rmatch nameRegex ([], b, u) =
     (case closing (skipSpace (dropWhile nameChar u)) of
        Some rest \<Rightarrow> [([(1, takeWhile nameChar u)], False, rest)]
      | None \<Rightarrow> [])"
proof -
  let ?X = "CHR ''{'' # CHR ''}'' # wsChars"
  let ?F = "\<lambda>st. rmatch closeRegex
      (case st of (caps', b', s') \<Rightarrow> ((1, take (length u - length s') u) # caps', b', s'))"
  have P: "(\<lambda>c. c \<notin> set ?X) = nameChar" by (simp add: nameChar_iff fun_eq_iff)
  have F0: "?F (caps, b, c # r) = []" if "c \<notin> set ?X" for caps b c r
    using that close_nameChar[of c] by (simp add: nameChar_iff)
  have "rmatch nameRegex ([], b, u) =
      concat (map ?F (rmatch (Star (NoneOf ?X)) ([], b, u)))"
    by (simp add: nameRegex_def comp_def del: rmatch.simps(6))
  also have "\<dots> = ?F ([], (if takeWhile (\<lambda>c. c \<notin> set ?X) u = [] then b else False),
      dropWhile (\<lambda>c. c \<notin> set ?X) u)"
    by (rule star_run) (rule F0)
  finally show ?thesis
    unfolding P by (simp add: close_match take_run split: option.splits)
qed

lemma closing_not_name:
  assumes "closing t = Some r"
  shows "closing (skipSpace (dropWhile nameChar t)) = Some r"
proof -
  from assms obtain t' where t: "t = CHR ''}'' # CHR ''}'' # t'"
    by (auto simp: closing_def split: list.splits if_splits)
  have "\<not> isSpace CHR ''}''" by (simp add: isSpace_def wsChars_def)
  then show ?thesis using assms unfolding t by (simp add: nameChar_def skipSpace_def)
qed

lemma placeholder_match:
  "(placeholderAt s = None \<longrightarrow> rmatch placeholderRegex ([], b, s) = []) \<and>
   (\<forall>key rest. placeholderAt s = Some (key, rest) \<longrightarrow>
      (\<exists>more. rmatch placeholderRegex ([], b, s) = ([(1, key)], False, rest) # more))"
proof (cases s)
  case Nil
  then show ?thesis by (simp add: placeholderAt_def placeholderRegex_def)
next
  case (Cons c s1)
  show ?thesis
  proof (cases s1)
    case Nil
    with Cons show ?thesis by (simp add: placeholderAt_def placeholderRegex_def)
  next
    case (Cons d t)
    note s = \<open>s = c # s1\<close> Cons
    show ?thesis
    proof (cases "c = CHR ''{'' \<and> d = CHR ''{''")
      case False
      with s show ?thesis by (auto simp: placeholderAt_def placeholderRegex_def)
    next
      case True
      let ?G = "rmatch nameRegex"
      have pa: "placeholderAt s =
          (case closing (skipSpace (dropWhile nameChar (skipSpace t))) of
             Some rest \<Rightarrow> Some (takeWhile nameChar (skipSpace t), rest)
           | None \<Rightarrow> None)"
        using True s by (simp add: placeholderAt_def)
      have rm: "rmatch placeholderRegex ([], b, s) =
          concat (map ?G (rmatch (Opt (OneOf wsChars)) ([], False, t)))"
        using True s by (simp add: placeholderRegex_def)
      show ?thesis
      proof (cases "\<exists>w t'. t = w # t' \<and> isSpace w")
        case False
        then have o: "rmatch (Opt (OneOf wsChars)) ([], False, t) = [([], False, t)]"
          by (cases t) (auto simp: Opt_def isSpace_def)
        from False have sk: "skipSpace t = t" by (cases t) (auto simp: skipSpace_def)
        show ?thesis
          unfolding rm o pa sk by (simp add: name_and_close split: option.splits)
      next
        case True
        then obtain w t' where t: "t = w # t'" and w: "isSpace w" by blast
        then have o: "rmatch (Opt (OneOf wsChars)) ([], False, t) = [([], False, t'), ([], False, t)]"
          by (simp add: Opt_def isSpace_def)
        from t w have sk: "skipSpace t = t'" by (simp add: skipSpace_def)
        have nw: "\<not> nameChar w" using w by (simp add: nameChar_def)
        have second: "?G ([], False, t) =
            (case closing t' of Some rest \<Rightarrow> [([(1, [])], False, rest)] | None \<Rightarrow> [])"
          using nw w by (simp add: name_and_close t skipSpace_def split: option.splits)
        have first: "?G ([], False, t') =
            (case closing (skipSpace (dropWhile nameChar t')) of
               Some rest \<Rightarrow> [([(1, takeWhile nameChar t')], False, rest)]
             | None \<Rightarrow> [])"
          by (rule name_and_close)
        show ?thesis
        proof (cases "closing (skipSpace (dropWhile nameChar t'))")
          case None
          then have "closing t' = None"
            using closing_not_name[of t'] by (cases "closing t'") auto
          with None show ?thesis
            unfolding rm o pa sk by (simp add: first second)
        next
          case (Some rest)
          then show ?thesis
            unfolding rm o pa sk by (simp add: first)
        qed
      qed
    qed
  qed
qed

lemma placeholderAt_shorter:
  assumes "placeholderAt s = Some (key, rest)"
  shows "length rest < length s"
proof -
  from assms obtain c d t where s: "s = c # d # t"
    by (auto simp: placeholderAt_def split: list.splits)
  from assms s have cl: "closing (skipSpace (dropWhile nameChar (skipSpace t))) = Some rest"
    by (auto simp: placeholderAt_def split: if_splits option.splits)
  have a: "length (skipSpace u) \<le> length u" for u
    by (cases u) (simp_all add: skipSpace_def)
  have b: "closing u = Some rest \<Longrightarrow> length rest < length u" for u
    by (auto simp: closing_def split: list.splits if_splits)
  have "length rest < length (skipSpace (dropWhile nameChar (skipSpace t)))"
    using cl by (rule b)
  also have "\<dots> \<le> length (dropWhile nameChar (skipSpace t))" by (rule a)
  also have "\<dots> \<le> length (skipSpace t)" by (rule length_dropWhile_le)
  also have "\<dots> \<le> length t" by (rule a)
  finally show ?thesis using s by simp
qed

lemma placeholders_substitute:
  "rxReplaceFrom placeholderRegex
     (\<lambda>substring caps. if map_of caps 1 = Some name then interpolateParam expr else substring) b s
   = substitute name expr s"
proof (induction "length s" arbitrary: s b rule: less_induct)
  case less
  let ?f = "\<lambda>substring caps. if map_of caps (1::nat) = Some name then interpolateParam expr else substring"
  show ?case
  proof (cases "placeholderAt s")
    case None
    then have m: "rmatch placeholderRegex ([], b, s) = []"
      using placeholder_match[of s b] by simp
    show ?thesis
    proof (cases s)
      case Nil
      with m None show ?thesis
        by (subst rxReplaceFrom.simps, subst substitute.simps) simp
    next
      case (Cons c cs)
      have "rxReplaceFrom placeholderRegex ?f False cs = substitute name expr cs"
        using less[of cs False] Cons by simp
      with m None Cons show ?thesis
        by (subst rxReplaceFrom.simps, subst substitute.simps) simp
    qed
  next
    case (Some kr)
    obtain key rest where kr: "kr = (key, rest)" by (cases kr)
    with Some have p: "placeholderAt s = Some (key, rest)" by simp
    then obtain more where m: "rmatch placeholderRegex ([], b, s) = ([(1, key)], False, rest) # more"
      using placeholder_match[of s b] by blast
    have sh: "length rest < length s" using p by (rule placeholderAt_shorter)
    have IH: "rxReplaceFrom placeholderRegex ?f False rest = substitute name expr rest"
      using less[of rest False] sh by simp
    show ?thesis
      using IH
      by (subst rxReplaceFrom.simps, subst substitute.simps)
         (simp add: m p sh interpolateParam_def)
  qed
qed

lemma replacePlaceholders_withParam:
  "replacePlaceholders (map trim (jsSplit '':'' param)) v = withParam param v"
  by (simp add: replacePlaceholders_def withParam_def rxReplace_def placeholders_substitute
      del: One_nat_def split: list.splits)

lemma substParams_substituted: "substParams params v = substituted params v"
  by (induction params arbitrary: v)
     (simp_all add: substituted_def replacePlaceholders_withParam)

lemma handleParams_substituted:
  "handleParams v a = Some (quoteValue (substituted (getParams (unbrace a)) v))"
  by (simp add: handleParams_def bracket_unbrace substParams_substituted)



subsection \<open>Splitting, quotes and the steps of the loop\<close>

lemma splitOn_first:
  assumes "sep \<noteq> []" "\<not> sublist sep (pre @ butlast sep)"
  shows "splitOn sep cur (pre @ sep @ rest) = (cur @ pre) # splitOn sep [] rest"
  using assms(2)
proof (induction pre arbitrary: cur)
  case Nil
  from assms(1) obtain c cs where sep: "sep = c # cs" by (cases sep) auto
  have "splitOn sep cur (sep @ rest) = cur # splitOn sep [] (drop (length sep) (sep @ rest))"
    unfolding sep by simp
  then show ?case by simp
next
  case (Cons c pre)
  have np: "\<not> prefix sep (c # pre @ sep @ rest)"
  proof
    assume p: "prefix sep (c # pre @ sep @ rest)"
    have "c # pre @ sep @ rest = ((c # pre) @ butlast sep) @ (last sep # rest)"
      using assms(1) by simp
    with p have "prefix sep (((c # pre) @ butlast sep) @ (last sep # rest))" by simp
    moreover have "length sep \<le> length ((c # pre) @ butlast sep)" by simp
    ultimately have "prefix sep ((c # pre) @ butlast sep)" by (rule prefix_short)
    then have "sublist sep ((c # pre) @ butlast sep)" by (rule prefix_imp_sublist)
    with Cons.prems show False by simp
  qed
  have "\<not> sublist sep (pre @ butlast sep)"
    using Cons.prems by (auto simp: sublist_Cons_right)
  from Cons.IH[OF this, of "cur @ [c]"] np show ?case by simp
qed

lemma splitOn_none:
  "\<not> sublist sep s \<Longrightarrow> splitOn sep cur s = [cur @ s]"
proof (induction s arbitrary: cur)
  case Nil
  then show ?case by simp
next
  case (Cons c s)
  have "\<not> prefix sep (c # s)" using Cons.prems prefix_imp_sublist by blast
  moreover have "\<not> sublist sep s" using Cons.prems by (auto simp: sublist_Cons_right)
  ultimately show ?case using Cons.IH[of "cur @ [c]"] by simp
qed

lemma trimQuotes_end: "rxReplaceFrom quoteTrimRegex (\<lambda>substring caps. []) False [] = []"
  by (subst rxReplaceFrom.simps) (simp add: quoteTrimRegex_def)

lemma quote_match_last:
  "rmatch quoteTrimRegex ([], False, [c]) = (if isQuote c then [([(3, [c])], False, [])] else [])"
  by (simp add: quoteTrimRegex_def isQuote_def dq_def sq_def bq_def)

lemma quote_match_inner: "rmatch quoteTrimRegex ([], False, c # d # r) = []"
  by (simp add: quoteTrimRegex_def)

lemma quote_match_first:
  "rmatch quoteTrimRegex ([], True, c # d # r) =
     (if isQuote c then [([(1, [c]), (2, [c])], False, d # r)] else [])"
  by (simp add: quoteTrimRegex_def isQuote_def dq_def sq_def bq_def)

lemma trimQuotes_rest:
  "rxReplaceFrom quoteTrimRegex (\<lambda>substring caps. []) False t =
     (if t \<noteq> [] \<and> isQuote (last t) then butlast t else t)"
proof (induction t)
  case Nil
  show ?case by (simp add: trimQuotes_end)
next
  case (Cons c t)
  show ?case
  proof (cases t)
    case Nil
    have "rxReplaceFrom quoteTrimRegex (\<lambda>substring caps. []) False [c] = (if isQuote c then [] else [c])"
      by (subst rxReplaceFrom.simps) (simp add: quote_match_last trimQuotes_end)
    with Nil show ?thesis by simp
  next
    case (Cons d r)
    have "rxReplaceFrom quoteTrimRegex (\<lambda>substring caps. []) False (c # d # r) =
        c # rxReplaceFrom quoteTrimRegex (\<lambda>substring caps. []) False (d # r)"
      by (subst rxReplaceFrom.simps) (simp add: quote_match_inner)
    with Cons.IH Cons show ?thesis by simp
  qed
qed

lemma trimQuotes_literal:
  assumes "isQuote q" "isQuote q'"
  shows "trimQuotes (q # s @ [q']) = s"
proof -
  obtain d r where dr: "s @ [q'] = d # r" by (cases "s @ [q']") auto
  have "trimQuotes (q # s @ [q']) = rxReplaceFrom quoteTrimRegex (\<lambda>substring caps. []) False (s @ [q'])"
    unfolding trimQuotes_def rxReplace_def dr
    by (subst rxReplaceFrom.simps) (simp add: quote_match_first assms(1))
  then show ?thesis using assms(2) by (simp add: trimQuotes_rest)
qed

lemma replaceFrom_frame:
  "replaceFrom pat rep left s = left @ s \<or>
   (\<exists>pre post r. left @ s = pre @ pat @ post \<and> replaceFrom pat rep left s = pre @ r @ post)"
proof (induction s arbitrary: left)
  case Nil
  show ?case
  proof (cases "pat = []")
    case True
    then have "left @ [] = left @ pat @ [] \<and>
        replaceFrom pat rep left [] = left @ getSubstitution pat left [] rep @ []"
      by simp
    then show ?thesis by blast
  next
    case False
    then show ?thesis by simp
  qed
next
  case (Cons c s)
  show ?case
  proof (cases "prefix pat (c # s)")
    case True
    then obtain post where post: "c # s = pat @ post" by (auto simp: prefix_def)
    then have d: "drop (length pat) (c # s) = post" by (metis append_eq_conv_conj)
    have "replaceFrom pat rep left (c # s) =
        left @ getSubstitution pat left (drop (length pat) (c # s)) rep @ drop (length pat) (c # s)"
      using True by simp
    then have "replaceFrom pat rep left (c # s) = left @ getSubstitution pat left post rep @ post"
      unfolding d .
    moreover have "left @ c # s = left @ pat @ post" using post by simp
    ultimately show ?thesis by blast
  next
    case False
    with Cons.IH[of "left @ [c]"] show ?thesis by simp
  qed
qed

lemma jsReplace_frame:
  "jsReplace code pat rep = code \<or>
   (\<exists>pre post r. code = pre @ pat @ post \<and> jsReplace code pat rep = pre @ r @ post)"
  using replaceFrom_frame[of pat rep "[]" code] by (simp add: jsReplace_def)

lemma find_eq_member: "x \<in> set xs \<Longrightarrow> find (\<lambda>y. y = x) xs = Some x"
  by (induction xs) auto

lemma find_eq_absent: "x \<notin> set xs \<Longrightarrow> find (\<lambda>y. y = x) xs = None"
  by (induction xs) auto

lemma error_TypeError: "(e::error) = TypeError"
  by (cases e)

lemma resolveLangs_total:
  "resolveLangs h key tr args ksep ls (values, logs) =
     (if \<exists>l \<in> set ls. isl (getValue h key (map_of tr l) args ksep) then Inl TypeError
      else Inr ((\<lambda>l. if l \<in> set ls \<and> projr (getValue h key (map_of tr l) args ksep) \<noteq> None
                      then projr (getValue h key (map_of tr l) args ksep) else values l),
                logs @ map (\<lambda>l. l @ '' - missing value for key: '' @ key)
                           (filter (\<lambda>l. getValue h key (map_of tr l) args ksep = Inr None) ls)))"
proof (cases "\<exists>l \<in> set ls. isl (getValue h key (map_of tr l) args ksep)")
  case True
  then obtain ys l zs where ls: "ls = ys @ l # zs"
    and l: "isl (getValue h key (map_of tr l) args ksep)"
    and ys: "\<forall>y \<in> set ys. \<not> isl (getValue h key (map_of tr y) args ksep)"
    by (auto dest!: split_list_first_prop)
  from l obtain e where e: "getValue h key (map_of tr l) args ksep = Inl e"
    by (auto simp: isl_def)
  from ys have "\<forall>y \<in> set ys. \<exists>v. getValue h key (map_of tr y) args ksep = Inr v"
    by (metis sum.collapse(2))
  then have "resolveLangs h key tr args ksep (ys @ l # zs) (values, logs) = Inl e"
    using e by (rule resolveLangs_throws)
  with True ls show ?thesis by (simp add: error_TypeError[of e])
next
  case False
  let ?vals = "\<lambda>l. projr (getValue h key (map_of tr l) args ksep)"
  from False have ok: "\<forall>l \<in> set ls. getValue h key (map_of tr l) args ksep = Inr (?vals l)"
    by (metis sum.collapse(2))
  have f: "filter (\<lambda>l. ?vals l = None) ls =
      filter (\<lambda>l. getValue h key (map_of tr l) args ksep = Inr None) ls"
    by (rule filter_cong) (use ok in auto)
  from resolveLangs_closed[OF ok, of "values" logs] False show ?thesis
    by (simp add: f)
qed

lemma inlineArgs_total:
  assumes "getParams args = params" "\<not> dynamicParams params"
    and "at params 0 = Some p0" "getKey p0 (keyValueSeparator opts) = Some key"
    and "activeLangs opts (at params 3) = (langs, dflt)"
    and "getValue h key (map_of tr dflt) (at params 1) (keySeparator opts) = Inr (Some dv)"
  shows "inlineArgs h g opts tr fn args (code, logs) =
     (if \<exists>l \<in> set (filter (\<lambda>x. x \<noteq> dflt) langs).
           isl (getValue h key (map_of tr l) (at params 1) (keySeparator opts))
      then Inl TypeError
      else Inr (jsReplace code fn
            (concat (map (\<lambda>l. g @ '' === '' @ quoteValue l @ '' && ''
                              @ templ (projr (getValue h key (map_of tr l) (at params 1) (keySeparator opts)))
                              @ '' || '')
                         (filter (\<lambda>x. x \<noteq> dflt) langs)) @ dv),
          logs @ map (\<lambda>l. l @ '' - missing value for key: '' @ key)
                     (filter (\<lambda>l. getValue h key (map_of tr l) (at params 1) (keySeparator opts) = Inr None)
                             (filter (\<lambda>x. x \<noteq> dflt) langs))))"
proof -
  define a1 where "a1 = at params 1"
  define ksep where "ksep = keySeparator opts"
  let ?nd = "filter (\<lambda>x. x \<noteq> dflt) langs"
  let ?val = "\<lambda>l. projr (getValue h key (map_of tr l) a1 ksep)"
  let ?vals = "\<lambda>l. if l \<in> set ?nd \<and> ?val l \<noteq> None then ?val l else (Map.empty(dflt \<mapsto> dv)) l"
  have dv: "getValue h key (map_of tr dflt) a1 ksep = Inr (Some dv)"
    using assms(6) by (simp add: a1_def ksep_def)
  have dvne: "dv \<noteq> []" using dv by (auto dest!: getValue_quoted)
  have terms: "map (\<lambda>l. g @ '' === '' @ quoteValue l @ '' && '' @ templ (?vals l) @ '' || '') ?nd
      = map (\<lambda>l. g @ '' === '' @ quoteValue l @ '' && '' @ templ (?val l) @ '' || '') ?nd"
    by (rule map_cong) (auto simp: templ_def)
  have line: "buildLine g ?vals langs dflt =
      concat (map (\<lambda>l. g @ '' === '' @ quoteValue l @ '' && '' @ templ (?val l) @ '' || '') ?nd) @ dv"
    unfolding buildLine_def buildTerms_closed terms by (simp add: templ_def)
  have r: "resolveLangs h key tr a1 ksep ?nd (Map.empty(dflt \<mapsto> dv), logs) =
      (if \<exists>l \<in> set ?nd. isl (getValue h key (map_of tr l) a1 ksep) then Inl TypeError
       else Inr (?vals, logs @ map (\<lambda>l. l @ '' - missing value for key: '' @ key)
                             (filter (\<lambda>l. getValue h key (map_of tr l) a1 ksep = Inr None) ?nd)))"
    by (rule resolveLangs_total)
  have "inlineArgs h g opts tr fn args (code, logs) =
      (if \<exists>l \<in> set ?nd. isl (getValue h key (map_of tr l) a1 ksep) then Inl TypeError
       else Inr (jsReplace code fn (buildLine g ?vals langs dflt),
           logs @ map (\<lambda>l. l @ '' - missing value for key: '' @ key)
                      (filter (\<lambda>l. getValue h key (map_of tr l) a1 ksep = Inr None) ?nd)))"
    unfolding inlineArgs_def Let_def assms(1) a1_def[symmetric] ksep_def[symmetric]
    using assms(2-5) dv dvne by (simp add: r)
  from this[unfolded line] show ?thesis unfolding a1_def ksep_def .
qed




lemma misses_treeLookup: "misses h t segs \<Longrightarrow> treeLookup t segs \<noteq> Some (JStr s)"
proof (induction h t segs rule: misses.induct)
  case (1 h segs)
  then show ?case by (simp add: treeLookup_None)
next
  case (2 h v)
  then show ?case by (cases v) auto
next
  case (3 h v k ks)
  then show ?case
    by (cases v) (auto simp: treeLookup_None split: option.splits)
qed

lemma getValue_of_leaf:
  assumes "treeLookup data (jsSplit ksep key) = Some (JStr s)"
  shows "getValue h key data args ksep =
     Inr (Some (bq # (if truthy args then substituted (getParams (unbrace (the args))) s else s) @ [bq]))"
  using treeLookup_walk[OF assms, of h]
  by (simp add: getValue_def handleParams_substituted quoteValue_def)

lemma getValue_of_walk:
  assumes "getValue h key data args ksep = Inr (Some v)"
  shows "\<exists>s. walk h data (jsSplit ksep key) = Inr (Some (JStr s)) \<and>
     v = bq # (if truthy args then substituted (getParams (unbrace (the args))) s else s) @ [bq]"
  using assms
  by (auto simp: getValue_def handleParams_substituted quoteValue_def
      split: sum.splits option.splits jsval.splits if_splits)


section \<open>Properties\<close>

subsection \<open>Missing values of other locales\<close>

text \<open>
  Claim C1, as stated: a non-default locale whose value is missing is logged and gets
  no term in the chain. On the sample data the key \<open>app.only\<close> has no \<open>it-IT\<close> value;
  the miss is logged, but the line still holds the \<open>it-IT\<close> term, with \<open>undefined\<close> as
  its value, and differs from the chain of the resolved locales alone.
\<close>

theorem missing_locale_term_emitted:
  "inlineArgs sampleHost ''$lang'' sampleOptions sampleTranslation (call (lit ''app.only''))
     (lit ''app.only'') (''x = '' @ call (lit ''app.only''), [])
   = Inr (''x = $lang === '' @ quoteValue ''it-IT'' @ '' && undefined || '' @ quoteValue ''English'',
          [''it-IT - missing value for key: app.only''])
   \<and> chainOfResolved ''$lang'' (Map.empty(''en-US'' \<mapsto> quoteValue ''English''))
        [''it-IT'', ''en-US''] ''en-US'' = quoteValue ''English''
   \<and> buildLine ''$lang'' (Map.empty(''en-US'' \<mapsto> quoteValue ''English''))
        [''it-IT'', ''en-US''] ''en-US''
      \<noteq> chainOfResolved ''$lang'' (Map.empty(''en-US'' \<mapsto> quoteValue ''English''))
        [''it-IT'', ''en-US''] ''en-US''"
  by code_simp

text \<open>
  Claim C1, amended: for a call that is not dynamic and whose default value \<open>dv\<close>
  resolved, the call text is replaced by a chain with one term for every
  non-default active locale, in order; the term of a locale without a value
  prints \<open>undefined\<close> (\<open>templ None\<close>) in the value place, which is falsy when the
  line runs, and each such locale adds one line to the log. The one other
  outcome is the exception of a lookup that reads a throwing member of the host.
\<close>

theorem missing_locale_logged_and_printed:
  assumes "getParams args = params" "\<not> dynamicParams params"
    and "at params 0 = Some p0" "getKey p0 (keyValueSeparator opts) = Some key"
    and "activeLangs opts (at params 3) = (langs, dflt)"
    and "getValue h key (map_of tr dflt) (at params 1) (keySeparator opts) = Inr (Some dv)"
  shows "inlineArgs h g opts tr fn args (code, logs) =
     (if \<exists>l \<in> set (filter (\<lambda>x. x \<noteq> dflt) langs).
           isl (getValue h key (map_of tr l) (at params 1) (keySeparator opts))
      then Inl TypeError
      else Inr (jsReplace code fn
            (concat (map (\<lambda>l. g @ '' === '' @ quoteValue l @ '' && ''
                              @ templ (projr (getValue h key (map_of tr l) (at params 1) (keySeparator opts)))
                              @ '' || '')
                         (filter (\<lambda>x. x \<noteq> dflt) langs)) @ dv),
          logs @ map (\<lambda>l. l @ '' - missing value for key: '' @ key)
                     (filter (\<lambda>l. getValue h key (map_of tr l) (at params 1) (keySeparator opts) = Inr None)
                             (filter (\<lambda>x. x \<noteq> dflt) langs))))"
  using assms by (rule inlineArgs_total)

theorem missing_locale_logged_and_printed_witness:
  "inlineArgs sampleHost ''$lang'' sampleOptions sampleTranslation (call (lit ''app.only''))
     (lit ''app.only'') (''x = '' @ call (lit ''app.only''), [])
   = Inr (''x = $lang === '' @ quoteValue ''it-IT'' @ '' && undefined || '' @ quoteValue ''English'',
          [''it-IT - missing value for key: app.only''])"
proof -
  have h1: "getParams (lit ''app.only'') = [lit ''app.only'']" by code_simp
  have h2: "\<not> dynamicParams [lit ''app.only'']" by code_simp
  have h3: "at [lit ''app.only''] 0 = Some (lit ''app.only'')" by code_simp
  have h4: "getKey (lit ''app.only'') (keyValueSeparator sampleOptions) = Some ''app.only''"
    by code_simp
  have h5: "activeLangs sampleOptions (at [lit ''app.only''] 3) = ([''it-IT'', ''en-US''], ''en-US'')"
    by code_simp
  have h6: "getValue sampleHost ''app.only'' (map_of sampleTranslation ''en-US'')
      (at [lit ''app.only''] 1) (keySeparator sampleOptions) = Inr (Some (quoteValue ''English''))"
    by code_simp
  have e: "(if \<exists>l \<in> set (filter (\<lambda>x. x \<noteq> ''en-US'') [''it-IT'', ''en-US'']).
           isl (getValue sampleHost ''app.only'' (map_of sampleTranslation l)
                  (at [lit ''app.only''] 1) (keySeparator sampleOptions))
      then Inl TypeError
      else Inr (jsReplace (''x = '' @ call (lit ''app.only'')) (call (lit ''app.only''))
            (concat (map (\<lambda>l. ''$lang'' @ '' === '' @ quoteValue l @ '' && ''
                              @ templ (projr (getValue sampleHost ''app.only'' (map_of sampleTranslation l)
                                         (at [lit ''app.only''] 1) (keySeparator sampleOptions)))
                              @ '' || '')
                         (filter (\<lambda>x. x \<noteq> ''en-US'') [''it-IT'', ''en-US''])) @ quoteValue ''English''),
          [] @ map (\<lambda>l. l @ '' - missing value for key: '' @ ''app.only'')
                     (filter (\<lambda>l. getValue sampleHost ''app.only'' (map_of sampleTranslation l)
                                     (at [lit ''app.only''] 1) (keySeparator sampleOptions) = Inr None)
                             (filter (\<lambda>x. x \<noteq> ''en-US'') [''it-IT'', ''en-US'']))))
     = Inr (''x = $lang === '' @ quoteValue ''it-IT'' @ '' && undefined || '' @ quoteValue ''English'',
          [''it-IT - missing value for key: app.only''])"
    by code_simp
  show ?thesis
    by (rule trans[OF missing_locale_logged_and_printed[OF h1 h2 h3 h4 h5 h6] e])
qed

subsection \<open>The chain of one call\<close>

text \<open>
  Claim C2, as stated: the locale is compared as a literal between single quotes, and
  the line of the example is \<open>lang === 'it-IT' && `Ciao` || `Hello`\<close>. The builder
  quotes the locale with \<open>quoteValue\<close>, in backticks, and the line differs.
\<close>

theorem spec_example_line_not_single_quoted:
  "chainSingleQuoted ''lang'' (Map.empty(''en-US'' \<mapsto> quoteValue ''Hello'', ''it-IT'' \<mapsto> quoteValue ''Ciao''))
     [''it-IT'', ''en-US''] ''en-US''
   = ''lang === '' @ [sq] @ ''it-IT'' @ [sq] @ '' && '' @ [bq] @ ''Ciao'' @ [bq] @ '' || '' @ [bq] @ ''Hello'' @ [bq]
   \<and> buildLine ''lang'' (Map.empty(''en-US'' \<mapsto> quoteValue ''Hello'', ''it-IT'' \<mapsto> quoteValue ''Ciao''))
     [''it-IT'', ''en-US''] ''en-US''
   \<noteq> ''lang === '' @ [sq] @ ''it-IT'' @ [sq] @ '' && '' @ [bq] @ ''Ciao'' @ [bq] @ '' || '' @ [bq] @ ''Hello'' @ [bq]"
  by code_simp

text \<open>
  Claim C2, amended: the builder emits, for every non-default active locale in the
  order of the list, the global locale variable, \<open>===\<close>, the locale between
  backticks, \<open>&&\<close>, the value (\<open>undefined\<close> for a locale without one) and \<open>||\<close>,
  and ends with the value of the default locale and no operator after it.
\<close>

theorem buildLine_chain:
  "buildLine g values langs dflt =
     concat (map (\<lambda>l. g @ '' === '' @ [bq] @ l @ [bq] @ '' && '' @ templ (values l) @ '' || '')
                 (filter (\<lambda>x. x \<noteq> dflt) langs))
     @ templ (values dflt)"
  by (simp add: buildLine_def buildTerms_closed quoteValue_def)

text \<open>The example of the specification: \<open>lang === `it-IT` && `Ciao` || `Hello`\<close>.\<close>

theorem buildLine_chain_witness:
  "buildLine ''lang'' (Map.empty(''en-US'' \<mapsto> quoteValue ''Hello'', ''it-IT'' \<mapsto> quoteValue ''Ciao''))
     [''it-IT'', ''en-US''] ''en-US''
   = ''lang === '' @ [bq] @ ''it-IT'' @ [bq] @ '' && '' @ [bq] @ ''Ciao'' @ [bq] @ '' || '' @ [bq] @ ''Hello'' @ [bq]"
proof -
  have e: "concat (map (\<lambda>l. ''lang'' @ '' === '' @ [bq] @ l @ [bq] @ '' && ''
                    @ templ ((Map.empty(''en-US'' \<mapsto> quoteValue ''Hello'', ''it-IT'' \<mapsto> quoteValue ''Ciao'')) l) @ '' || '')
                 (filter (\<lambda>x. x \<noteq> ''en-US'') [''it-IT'', ''en-US'']))
     @ templ ((Map.empty(''en-US'' \<mapsto> quoteValue ''Hello'', ''it-IT'' \<mapsto> quoteValue ''Ciao'')) ''en-US'')
     = ''lang === '' @ [bq] @ ''it-IT'' @ [bq] @ '' && '' @ [bq] @ ''Ciao'' @ [bq] @ '' || '' @ [bq] @ ''Hello'' @ [bq]"
    by code_simp
  show ?thesis by (rule trans[OF buildLine_chain e])
qed

subsection \<open>A call without a default value\<close>




text \<open>
  A key that names an inherited member, or that goes on below a leaf, is not
  in the tree either, but the lookup gives it a value and the call is inlined
  with nothing logged.
\<close>

lemma inherited_member_inlined:
  "treeLookup (map_of sampleTranslation ''en-US'') (jsSplit ''.'' ''constructor.name'') = None
   \<and> inline sampleHost (scanned [call (lit ''constructor.name'')]) sampleOptions sampleTranslation
       (''x = '' @ call (lit ''constructor.name'') @ '';'') []
     = Inr (Some (''x = $lang === '' @ quoteValue ''it-IT'' @ '' && '' @ quoteValue ''Object''
                   @ '' || '' @ quoteValue ''Object'' @ '';''), [])
   \<and> treeLookup (map_of sampleTranslation ''en-US'') (jsSplit ''.'' ''app.title.0'') = None
   \<and> inline sampleHost (scanned [call (lit ''app.title.0'')]) sampleOptions sampleTranslation
       (''x = '' @ call (lit ''app.title.0'') @ '';'') []
     = Inr (Some (''x = $lang === '' @ quoteValue ''it-IT'' @ '' && '' @ quoteValue ''C''
                   @ '' || '' @ quoteValue ''H'' @ '';''), [])"
  by code_simp

subsection \<open>What the transform leaves as it is\<close>

text \<open>
  Claim C4: a call with a parameter argument that is no literal is kept as it is.
  The check of the second argument looks for a word followed by a colon anywhere
  in its text. The conditional expression \<open>c ? a : b\<close> holds one (\<open>a :\<close>), the call
  \<open>$translate('app.title', c ? a : b)\<close> is taken for a call with an object of
  parameters, and its text is replaced by the chain.
\<close>

theorem conditional_params_call_inlined:
  "\<not> dynamicParams (getParams (lit ''app.title'' @ '', c ? a : b''))
   \<and> inline sampleHost (scanned [call (lit ''app.title'' @ '', c ? a : b'')]) sampleOptions
       sampleTranslation (''x = '' @ call (lit ''app.title'' @ '', c ? a : b'') @ '';'') []
     = Inr (Some (''x = $lang === '' @ quoteValue ''it-IT'' @ '' && '' @ quoteValue ''Ciao''
                   @ '' || '' @ quoteValue ''Hello'' @ '';''), [])"
  by code_simp

text \<open>A second argument that is an identifier is kept, whatever the key.\<close>

lemma identifier_params_call_kept:
  "inline sampleHost (scanned [call (lit ''app.title'' @ '', p'')]) sampleOptions sampleTranslation
     (''x = '' @ call (lit ''app.title'' @ '', p'') @ '';'') []
   = Inr (Some (''x = '' @ call (lit ''app.title'' @ '', p'') @ '';''), [])"
  by code_simp

lemma inlineArgs_dynamic:
  "dynamicParams (getParams args) \<Longrightarrow> inlineArgs h g opts tr fn args (code, logs) = Inr (code, logs)"
  by (simp add: inlineArgs_def)

text \<open>
  One step of the loop returns the code it got, or that code with the first
  occurrence of the text of the call replaced: what stands before and behind
  that occurrence is kept.
\<close>

lemma inlineArgs_frame:
  assumes "inlineArgs h g opts tr fn args (code, logs) = Inr (code', logs')"
  shows "code' = code \<or> (\<exists>pre post r. code = pre @ fn @ post \<and> code' = pre @ r @ post)"
  using assms jsReplace_frame[of code fn] unfolding inlineArgs_def Let_def
  by (auto split: if_splits option.splits sum.splits)

lemma inlineFn_frame:
  assumes "inlineFn h c opts tr (code, logs) fn = Inr (code', logs')"
  shows "code' = code \<or> (\<exists>pre post r. code = pre @ fn @ post \<and> code' = pre @ r @ post)"
  using assms inlineArgs_frame[of h "globalLang c" opts tr fn _ code logs code' logs']
  by (auto simp: inlineFn_def split: option.splits if_splits)

subsection \<open>The key and its default value\<close>

text \<open>
  Claim C5, as stated: the default value is all the text after the first separator.
  The extraction keeps the second piece of the split only: for \<open>k@@a@@b\<close> the
  default is \<open>a\<close>, not \<open>a@@b\<close>.
\<close>

theorem default_value_cut_at_second_separator:
  "keyAndDefault ''@@'' ''k@@a@@b'' = (Some ''k'', Some ''a'')
   \<and> deepSetArgs sampleOptions ''k@@a@@b'' = Inr ([''k''], ''a'')
   \<and> snd (keyAndDefault ''@@'' ''k@@a@@b'') \<noteq> Some ''a@@b''"
  by code_simp

text \<open>
  Claim C5, amended: when the separator first occurs right after \<open>pre\<close>, the key
  is \<open>pre\<close>, in \<open>getKey\<close> and in the extraction; the default value of the
  extraction is the text after that occurrence up to the next occurrence of the
  separator, which is the whole remaining text when the separator does not occur
  again.
\<close>

theorem separator_first_occurrence:
  assumes "sep \<noteq> []" "\<not> sublist sep (pre @ butlast sep)" "trimQuotes param = pre @ sep @ rest"
  shows "getKey param sep = Some pre
       \<and> fst (keyAndDefault sep (pre @ sep @ rest)) = Some pre
       \<and> snd (keyAndDefault sep (pre @ sep @ rest)) = fst (keyAndDefault sep rest)
       \<and> (\<not> sublist sep rest \<longrightarrow> snd (keyAndDefault sep (pre @ sep @ rest)) = Some rest)"
proof -
  have sp: "jsSplit sep (pre @ sep @ rest) = pre # splitOn sep [] rest"
    using assms(1) splitOn_first[OF assms(1,2), of "[]" rest] by (simp add: jsSplit_def)
  have r: "jsSplit sep rest = splitOn sep [] rest" using assms(1) by (simp add: jsSplit_def)
  have "getKey param sep = Some pre" by (simp add: getKey_def assms(3) sp at_def)
  moreover have "fst (keyAndDefault sep (pre @ sep @ rest)) = Some pre"
    by (simp add: keyAndDefault_def sp at_def)
  moreover have "snd (keyAndDefault sep (pre @ sep @ rest)) = fst (keyAndDefault sep rest)"
    by (simp add: keyAndDefault_def sp r at_def)
  moreover have "snd (keyAndDefault sep (pre @ sep @ rest)) = Some rest" if "\<not> sublist sep rest"
    using splitOn_none[OF that, of "[]"] by (simp add: keyAndDefault_def sp at_def)
  ultimately show ?thesis by blast
qed

theorem separator_first_occurrence_witness:
  "getKey (lit ''app.title@@Hello'') ''@@'' = Some ''app.title''
   \<and> fst (keyAndDefault ''@@'' (''app.title'' @ ''@@'' @ ''Hello'')) = Some ''app.title''
   \<and> snd (keyAndDefault ''@@'' (''app.title'' @ ''@@'' @ ''Hello'')) = Some ''Hello''"
proof -
  have h1: "''@@'' \<noteq> []" by simp
  have h2: "\<not> sublist ''@@'' (''app.title'' @ butlast ''@@'')" by code_simp
  have h3: "trimQuotes (lit ''app.title@@Hello'') = ''app.title'' @ ''@@'' @ ''Hello''" by code_simp
  have h4: "\<not> sublist ''@@'' ''Hello''" by code_simp
  from separator_first_occurrence[OF h1 h2 h3] h4 show ?thesis by blast
qed

subsection \<open>Looking up a key\<close>

text \<open>
  Claim C6: \<open>getValue\<close> gives no value when a segment of the key is missing from the
  tree. The reducer does not check that the value it indexes is an object: a
  segment behind a leaf that is an index into the string selects that character,
  and \<open>getValue('SUBKEY1.AA.0', ...)\<close> returns \<open>`a`\<close>, whatever the host.
\<close>

theorem getValue_indexes_into_leaf:
  "getValue h ''SUBKEY1.AA.0''
     (Some (JObj [(''KEY1'', JStr ''key1''), (''SUBKEY1'', JObj [(''AA'', JStr ''aa'')])])) None ''.''
   = Inr (Some (quoteValue ''a''))"
  by code_simp

text \<open>
  The examples of the specification, the absent tree, and that a value comes only
  from a walk that ends on a string. The reducer does not check either that the
  segment is a key of the mapping: the name of an inherited member is looked up
  in the host, which gives a value for \<open>constructor.name\<close> and throws for
  \<open>constructor.caller\<close>.
\<close>

lemma getValue_spec_examples:
  "getValue sampleHost ''SUBKEY1'' (Some (JObj [(''SUBKEY1'', JObj [(''AA'', JStr ''aa'')])])) None ''.''
     = Inr None
   \<and> getValue sampleHost ''SUBKEY1.BB'' (Some (JObj [(''SUBKEY1'', JObj [(''AA'', JStr ''aa'')])])) None ''.''
     = Inr None
   \<and> getValue sampleHost ''SUBKEY1.AA'' (Some (JObj [(''SUBKEY1'', JObj [(''AA'', JStr ''aa'')])])) None ''.''
     = Inr (Some (quoteValue ''aa''))"
  by code_simp

lemma getValue_inherited_member:
  "getValue sampleHost ''constructor.name'' (Some (JObj [(''KEY1'', JStr ''key1'')])) None ''.''
     = Inr (Some (quoteValue ''Object''))
   \<and> getValue sampleHost ''constructor.caller'' (Some (JObj [(''KEY1'', JStr ''key1'')])) None ''.''
     = Inl TypeError"
  by code_simp

lemma getValue_absent_tree: "getValue h key None args ksep = Inr None"
  by (simp add: getValue_def walk_None)

lemma getValue_ends_on_string:
  "getValue h key data args ksep = Inr (Some v) \<Longrightarrow>
   \<exists>s. walk h data (jsSplit ksep key) = Inr (Some (JStr s))"
  by (auto simp: getValue_def split: sum.splits option.splits jsval.splits)

subsection \<open>The locale of one call\<close>

text \<open>
  Claim C7: a fourth argument that is the literal of a supported locale makes that
  locale the only one of the call. In
  \<open>$translate('app.title', { a: 1, b: { c: 2 } }, undefined, 'it-IT')\<close> the fourth
  argument is \<open>'it-IT'\<close>. \<open>getParams\<close> cuts the object of parameters at its first
  comma, the literal is the fifth text of the list, \<open>params[3]\<close> is \<open>undefined\<close>,
  and the call gets the chain of all the locales.
\<close>

theorem locale_override_lost_behind_nested_object:
  "getParams (lit ''app.title'' @ '', { a: 1, b: { c: 2 } }, undefined, '' @ lit ''it-IT'')
     = [lit ''app.title'', ''{ a: 1'', ''b: { c: 2 } }'', ''undefined'', lit ''it-IT'']
   \<and> inline sampleHost
       (scanned [call (lit ''app.title'' @ '', { a: 1, b: { c: 2 } }, undefined, '' @ lit ''it-IT'')])
       sampleOptions sampleTranslation
       (''x = '' @ call (lit ''app.title'' @ '', { a: 1, b: { c: 2 } }, undefined, '' @ lit ''it-IT'') @ '';'')
       []
     = Inr (Some (''x = $lang === '' @ quoteValue ''it-IT'' @ '' && '' @ quoteValue ''Ciao''
                   @ '' || '' @ quoteValue ''Hello'' @ '';''), [])"
  by code_simp

text \<open>
  With an object of parameters that has no nested object the literal is
  \<open>params[3]\<close> and the call gets the value of \<open>it-IT\<close> alone. \<open>if (!optionalLang)\<close>
  takes a supported locale that is the empty string for no locale. On its own
  argument \<open>activeLangs\<close> does what the claim says for every other quoted literal.
\<close>

lemma locale_override_flat_object:
  "inline sampleHost
     (scanned [call (lit ''app.title'' @ '', { a: 1 }, undefined, '' @ lit ''it-IT'')])
     sampleOptions sampleTranslation
     (''x = '' @ call (lit ''app.title'' @ '', { a: 1 }, undefined, '' @ lit ''it-IT'') @ '';'') []
   = Inr (Some (''x = '' @ quoteValue ''Ciao'' @ '';''), [])"
  by code_simp

lemma activeLangs_empty_locale:
  "activeLangs (sampleOptions\<lparr>supportedLangs := ['''', ''en-US'']\<rparr>) (Some [sq, sq])
     = (['''', ''en-US''], ''en-US'')"
  by code_simp

lemma activeLangs_literal:
  "(lang \<in> set (supportedLangs opts) \<and> lang \<noteq> [] \<and> isQuote q \<and> isQuote q'
      \<longrightarrow> activeLangs opts (Some (q # lang @ [q'])) = ([lang], lang))
   \<and> (trimQuotes p \<notin> set (supportedLangs opts)
      \<longrightarrow> activeLangs opts (Some p) = (supportedLangs opts, defaultLang opts))"
  by (auto simp: activeLangs_def multilingual_def trimQuotes_literal find_eq_member
      find_eq_absent Let_def)

subsection \<open>Splitting the arguments\<close>

text \<open>
  Claim C8: \<open>getParams\<close> never splits at a comma inside a quoted string. The
  alternative of the regex meant for backticks opens with a single quote, so a
  comma inside a back-quoted string is a separator: \<open>"key", `x, y`\<close> gives three
  arguments.
\<close>

theorem getParams_splits_backtick_string:
  "getParams ([dq] @ ''key'' @ [dq] @ '', '' @ [bq] @ ''x, y'' @ [bq])
     = [[dq] @ ''key'' @ [dq], [bq] @ ''x'', ''y'' @ [bq]]"
  by code_simp

text \<open>
  The example of the specification gives two arguments; an object literal with a
  nested one is split at its first comma.
\<close>

lemma getParams_spec_example:
  "getParams ([dq] @ ''key'' @ [dq] @ '', { a: '' @ [sq] @ ''x, y'' @ [sq] @ '', b: 2 }'')
     = [[dq] @ ''key'' @ [dq], ''{ a: '' @ [sq] @ ''x, y'' @ [sq] @ '', b: 2 }'']"
  by code_simp

lemma getParams_splits_nested_object:
  "getParams ''{ a: 1, b: { c: 2 } }'' = [''{ a: 1'', ''b: { c: 2 } }'']"
  by code_simp

subsection \<open>Empty values and quoting\<close>




text \<open>
  Claim C10: a value returned by \<open>getValue\<close> is the string the walk ends on, after
  the substitution of the parameters when the argument of parameters is present,
  between two backticks; a key that leads to a leaf of the tree has that value;
  and \<open>handleParams\<close> returns such a text, never \<open>undefined\<close>, for every value and
  argument text. The substitution is the one of the specification
  (\<open>substituted\<close>), not the code's.
\<close>

theorem getValue_backtick_quoted:
  "(getValue h key data args ksep = Inr (Some v) \<longrightarrow>
      (\<exists>s. walk h data (jsSplit ksep key) = Inr (Some (JStr s)) \<and>
           v = bq # (if truthy args then substituted (getParams (unbrace (the args))) s else s) @ [bq]))
   \<and> (treeLookup data (jsSplit ksep key) = Some (JStr s) \<longrightarrow>
        getValue h key data args ksep =
          Inr (Some (bq # (if truthy args then substituted (getParams (unbrace (the args))) s else s)
                        @ [bq])))
   \<and> handleParams value a = Some (bq # substituted (getParams (unbrace a)) value @ [bq])"
  using getValue_of_walk[of h key data args ksep v] getValue_of_leaf[of data ksep key s h args]
  by (simp add: handleParams_substituted quoteValue_def)

theorem getValue_backtick_quoted_witness:
  "(\<exists>s. walk sampleHost (map_of sampleTranslation ''en-US'') (jsSplit ''.'' ''app.greet'')
          = Inr (Some (JStr s)) \<and>
        bq # ''Hi ${user}'' @ [bq] =
          bq # (if truthy (Some ''{ name: user }'')
                then substituted (getParams (unbrace (the (Some ''{ name: user }'')))) s else s) @ [bq])
   \<and> getValue sampleHost ''app.greet'' (map_of sampleTranslation ''en-US'') (Some ''{ name: user }'') ''.''
       = Inr (Some (bq # ''Hi ${user}'' @ [bq]))
   \<and> getValue sampleHost ''app.title'' (map_of sampleTranslation ''en-US'') None ''.''
       = Inr (Some (bq # ''Hello'' @ [bq]))
   \<and> handleParams ''Hi {{ name }} and {{ other }}'' ''{ name: user }''
       = Some (bq # ''Hi ${user} and {{ other }}'' @ [bq])"
proof -
  have h0: "getValue sampleHost ''app.greet'' (map_of sampleTranslation ''en-US'')
      (Some ''{ name: user }'') ''.'' = Inr (Some (bq # ''Hi ${user}'' @ [bq]))"
    by code_simp
  have h1: "treeLookup (map_of sampleTranslation ''en-US'') (jsSplit ''.'' ''app.greet'')
      = Some (JStr ''Hi {{ name }}'')"
    by code_simp
  have h2: "treeLookup (map_of sampleTranslation ''en-US'') (jsSplit ''.'' ''app.title'')
      = Some (JStr ''Hello'')"
    by code_simp
  have e1: "bq # (if truthy (Some ''{ name: user }'')
                then substituted (getParams (unbrace (the (Some ''{ name: user }'')))) ''Hi {{ name }}''
                else ''Hi {{ name }}'') @ [bq] = bq # ''Hi ${user}'' @ [bq]"
    by code_simp
  have e2: "bq # (if truthy None then substituted (getParams (unbrace (the None))) ''Hello''
                else ''Hello'') @ [bq] = bq # ''Hello'' @ [bq]"
    by simp
  have e3: "bq # substituted (getParams (unbrace ''{ name: user }'')) ''Hi {{ name }} and {{ other }}''
      @ [bq] = bq # ''Hi ${user} and {{ other }}'' @ [bq]"
    by code_simp
  note a = getValue_backtick_quoted[of sampleHost "''app.greet''" "map_of sampleTranslation ''en-US''"
      "Some ''{ name: user }''" "''.''" "bq # ''Hi ${user}'' @ [bq]" "''Hi {{ name }}''"
      "''Hi {{ name }} and {{ other }}''" "''{ name: user }''"]
  note b = getValue_backtick_quoted[of sampleHost "''app.title''" "map_of sampleTranslation ''en-US''"
      None "''.''" "[]" "''Hello''" "[]" "[]"]
  from a h0 h1 e1 e3 b h2 e2 show ?thesis by (simp only:) 
qed

end
